theory Spec2Isabelle
  imports Complex_Main
begin

section \<open>Numeric model\<close>

datatype npfloat = Fin real | PInf | NInf | NaN

text \<open>
  The arrays of \<^verbatim>\<open>graph_topology.py\<close> hold double-precision numbers. A finite double is
  modelled by the real number it denotes, and sums, products, quotients and \<open>exp\<close> by the
  exact operations: their rounding error and overflow are outside the model. Three things
  are not idealised, because the code's results turn on them:
  \<^item> where real arithmetic is partial and the code still produces a value: a division of
    an array by a zero scalar (numpy gives \<^verbatim>\<open>nan\<close> or an infinity, where HOL would give 0)
    and a fractional power of a negative number (numpy gives \<^verbatim>\<open>nan\<close>);
  \<^item> \<^verbatim>\<open>np.power\<close>, whose result is rounded to an integer right away: the double it
    returns for a positive base is a parameter of the model, \<open>np_pow\<close>, an approximation
    of the real power whose accuracy is a hypothesis wherever a theorem needs it;
  \<^item> the integer arrays, which hold 64-bit signed integers: products wrap around, and a
    double that does not fit is converted as the platform converts it (the parameter
    \<open>np_cast\<close>, as for \<^verbatim>\<open>nan\<close> and the infinities).
\<close>

record platform =
  np_pow :: "real \<Rightarrow> real \<Rightarrow> real"
  np_cast :: "npfloat \<Rightarrow> int"

datatype error = ZeroDivisionError | ValueError | IndexError | TypeError

text \<open>
  A scalar argument is a Python number or a numpy scalar (\<^verbatim>\<open>numpy.float64\<close> is a subclass
  of \<^verbatim>\<open>float\<close>): the two divide by zero differently.
\<close>

datatype scalar = is_Python: Python (scalar_value: real) | Numpy (scalar_value: real)

datatype count = is_PythonInt: PythonInt (count_value: int) | NumpyInt (count_value: int)

text \<open>The value of a signed 64-bit integer operation: the result modulo \<open>2\<^sup>6\<^sup>4\<close>.\<close>

definition int64 :: "int \<Rightarrow> int" where
  "int64 x = (x + 2 ^ 63) mod 2 ^ 64 - 2 ^ 63"

text \<open>\<^verbatim>\<open>array / scalar\<close> of numpy on finite operands.\<close>

definition np_div :: "real \<Rightarrow> real \<Rightarrow> npfloat" where
  "np_div x y =
     (if y \<noteq> 0 then Fin (x / y)
      else if x = 0 then NaN
      else if x < 0 then NInf else PInf)"

fun np_exp :: "npfloat \<Rightarrow> npfloat" where
  "np_exp (Fin x) = Fin (exp x)"
| "np_exp PInf = PInf"
| "np_exp NInf = Fin 0"
| "np_exp NaN = NaN"

text \<open>\<^verbatim>\<open>np.round\<close> rounds a tie to the even neighbour.\<close>

definition np_round :: "real \<Rightarrow> int" where
  "np_round x =
     (let f = \<lfloor>x\<rfloor>; r = x - of_int f
      in if r < 1 / 2 then f
         else if 1 / 2 < r then f + 1
         else if even f then f else f + 1)"

definition np_sign :: "real \<Rightarrow> real" where
  "np_sign x = (if x < 0 then - 1 else if x = 0 then 0 else 1)"

text \<open>
  \<^verbatim>\<open>np.power\<close> on finite operands: a negative base with a fractional exponent is
  \<^verbatim>\<open>nan\<close>, zero to a negative exponent is infinite, zero to the power zero is 1 and
  zero to a positive power is 0; for a positive base the result is the platform's.
\<close>

definition np_power :: "platform \<Rightarrow> real \<Rightarrow> real \<Rightarrow> npfloat" where
  "np_power pf x a =
     (if x < 0 \<and> of_int \<lfloor>a\<rfloor> \<noteq> a then NaN
      else if x = 0 \<and> a < 0 then PInf
      else if x = 0 \<and> a = 0 then Fin 1
      else if x = 0 then Fin 0
      else if x < 0 then Fin ((if even \<lfloor>a\<rfloor> then 1 else - 1) * np_pow pf (- x) a)
      else Fin (np_pow pf x a))"

fun np_round_f :: "npfloat \<Rightarrow> npfloat" where
  "np_round_f (Fin x) = Fin (of_int (np_round x))"
| "np_round_f v = v"

text \<open>
  \<^verbatim>\<open>np.asarray(..., dtype=int)\<close> makes an array of numpy's default integer, 64 bits wide
  on Linux and macOS. It truncates a finite value towards zero when the result fits. What it makes of a value that does not fit, of \<^verbatim>\<open>nan\<close> and of the
  infinities depends on the platform (\<open>- 2\<^sup>6\<^sup>3\<close> on x86-64); whatever it is, it is a
  64-bit integer.
\<close>

fun astype_int :: "platform \<Rightarrow> npfloat \<Rightarrow> int" where
  "astype_int pf (Fin x) =
     (let t = (if 0 \<le> x then \<lfloor>x\<rfloor> else \<lceil>x\<rceil>)
      in if - (2 ^ 63) \<le> t \<and> t < 2 ^ 63 then t else int64 (np_cast pf (Fin x)))"
| "astype_int pf v = int64 (np_cast pf v)"

text \<open>
  One entry of
  \<^verbatim>\<open>np.asarray(np.round(np.power(2 * atom_number, 1 / 2.4)), dtype=int)\<close>.
\<close>

definition recover_atom_number :: "platform \<Rightarrow> real \<Rightarrow> int" where
  "recover_atom_number pf c = astype_int pf (np_round_f (np_power pf (2 * c) (1 / 2.4)))"

section \<open>Gaussian expansion\<close>

text \<open>
  \<^verbatim>\<open>
  def gauss_expand(distance, n_distance, distance_min, distance_max):
    step_size = (distance_max - distance_min) / n_distance
    steps = np.array([distance_min + i * step_size for i in range(n_distance)])
    distance_vector = np.exp(-np.square(distance - steps) / (2 * step_size**2))
    return distance_vector
  \<close>
  For \<^verbatim>\<open>n_distance = 0\<close> the first line raises when the bounds and \<^verbatim>\<open>n_distance\<close> are
  Python numbers. When one of them is a numpy scalar the division is numpy's: it warns,
  \<^verbatim>\<open>step_size\<close> is an infinity or \<^verbatim>\<open>nan\<close>, \<^verbatim>\<open>range(0)\<close> is empty and so is the
  result. \<^verbatim>\<open>range\<close> of a negative number is empty too.
\<close>

definition gauss_expand :: "real \<Rightarrow> count \<Rightarrow> scalar \<Rightarrow> scalar \<Rightarrow> error + npfloat list" where
  "gauss_expand distance n_distance distance_min distance_max =
     (if count_value n_distance = 0 then
        (if is_PythonInt n_distance \<and> is_Python distance_min \<and> is_Python distance_max
         then Inl ZeroDivisionError
         else Inr [])
      else
        let step_size = (scalar_value distance_max - scalar_value distance_min)
                          / of_int (count_value n_distance);
            steps = map (\<lambda>i. scalar_value distance_min + of_nat i * step_size)
                      [0..<nat (count_value n_distance)]
        in Inr (map (\<lambda>s. np_exp (np_div (- ((distance - s)\<^sup>2)) (2 * step_size\<^sup>2))) steps))"

text \<open>The centres and the kernel as the specification words them.\<close>

definition gauss_center :: "real \<Rightarrow> real \<Rightarrow> int \<Rightarrow> nat \<Rightarrow> real" where
  "gauss_center distance_min distance_max n_distance i =
     distance_min + of_nat i * ((distance_max - distance_min) / of_int n_distance)"

definition gauss_value :: "real \<Rightarrow> int \<Rightarrow> real \<Rightarrow> real \<Rightarrow> nat \<Rightarrow> real" where
  "gauss_value distance n_distance distance_min distance_max i =
     exp (- ((distance - gauss_center distance_min distance_max n_distance i)\<^sup>2)
          / (2 * ((distance_max - distance_min) / of_int n_distance)\<^sup>2))"

section \<open>Arrays and the store\<close>

text \<open>
  A numpy array is a reference to a buffer; a basic slice such as \<^verbatim>\<open>batch[:]\<close> is a
  view, a second reference to the same buffer. The store is the list of the live buffers
  and an address is a position in it. A buffer is a nested list; the innermost axis of the
  four-dimensional distance tensor is kept as a vector, since the code only assigns to it
  as a whole (\<^verbatim>\<open>distance_matrix[im, ir, ie, :] = ...\<close>).
\<close>

type_synonym addr = nat

datatype ndarray =
    is_Float2: Float2 (float2: "real list list")
  | is_Int2: Int2 (int2: "int list list")
  | is_Float3: Float3 (float3: "real list list list")
  | is_Float4: Float4 (float4: "npfloat list list list list")

type_synonym store = "ndarray list"

definition alloc :: "ndarray \<Rightarrow> store \<Rightarrow> addr \<times> store" where
  "alloc a s = (length s, s @ [a])"

definition get3 :: "'a list list list \<Rightarrow> nat \<Rightarrow> nat \<Rightarrow> nat \<Rightarrow> 'a" where
  "get3 b m i j = b ! m ! i ! j"

definition set3 :: "'a list list list \<Rightarrow> nat \<Rightarrow> nat \<Rightarrow> nat \<Rightarrow> 'a \<Rightarrow> 'a list list list" where
  "set3 b m i j v = b[m := (b ! m)[i := (b ! m ! i)[j := v]]]"

definition in_range3 :: "'a list list list \<Rightarrow> nat \<Rightarrow> nat \<Rightarrow> nat \<Rightarrow> bool" where
  "in_range3 b m i j \<longleftrightarrow> m < length b \<and> i < length (b ! m) \<and> j < length (b ! m ! i)"

definition dims3 :: "'a list list list \<Rightarrow> nat list list" where
  "dims3 b = map (map length) b"

text \<open>Assignment through a reference: \<^verbatim>\<open>a[m, i, j] = v\<close> and \<^verbatim>\<open>a[m, i, j, :] = v\<close>.\<close>

definition store3 :: "addr \<Rightarrow> nat \<Rightarrow> nat \<Rightarrow> nat \<Rightarrow> real \<Rightarrow> store \<Rightarrow> store" where
  "store3 a m i j v s = s[a := Float3 (set3 (float3 (s ! a)) m i j v)]"

definition store4 :: "addr \<Rightarrow> nat \<Rightarrow> nat \<Rightarrow> nat \<Rightarrow> npfloat list \<Rightarrow> store \<Rightarrow> store" where
  "store4 a m i j v s = s[a := Float4 (set3 (float4 (s ! a)) m i j v)]"

text \<open>\<^verbatim>\<open>np.diag\<close> of a matrix is its main diagonal, as long as the shorter side.\<close>

definition np_diag :: "'a list list \<Rightarrow> 'a list" where
  "np_diag m =
     map (\<lambda>i. m ! i ! i) [0..<(case m of [] \<Rightarrow> 0 | r # _ \<Rightarrow> min (length m) (length r))]"

text \<open>\<^verbatim>\<open>np.outer\<close> of two vectors of 64-bit integers: the products wrap around.\<close>

definition np_outer :: "int list \<Rightarrow> int list \<Rightarrow> int list list" where
  "np_outer a b = map (\<lambda>x. map (\<lambda>y. int64 (x * y)) b) a"

section \<open>The Coulomb-matrix encoder\<close>

text \<open>
  The fields of \<^verbatim>\<open>DTNNGraphTopology\<close> that \<^verbatim>\<open>__init__\<close> stores. The TensorFlow
  placeholders it creates are the keys of the feed dictionary; \<^verbatim>\<open>max_n_atoms\<close> only
  enters their declared shapes, which \<^verbatim>\<open>batch_to_feed_dict\<close> never consults.
\<close>

record DTNNGraphTopology =
  max_n_atoms :: nat
  n_distance :: count
  distance_min :: scalar
  distance_max :: scalar

datatype placeholder =
    atom_number_placeholder
  | atom_mask_placeholder
  | distance_matrix_placeholder
  | distance_matrix_mask_placeholder

text \<open>
  The body of the innermost loop of \<^verbatim>\<open>batch_to_feed_dict\<close>. \<^verbatim>\<open>element\<close> is read
  through the view \<^verbatim>\<open>row\<close> of \<^verbatim>\<open>batch\<close> when the iteration starts, so from the store as
  it is then.
  \<^verbatim>\<open>
          if element > 0 and ir != ie:
            distance_matrix[im, ir, ie, :] = self.gauss_expand(
                ZiZj[im, ir, ie] / element, self.n_distance, self.distance_min,
                self.distance_max)
            distance_matrix_mask[im, ir, ie] = 1
          else:
            distance_matrix[im, ir, ie, :] = 0
            distance_matrix_mask[im, ir, ie] = 0
  \<close>
\<close>

definition assign_pair ::
  "DTNNGraphTopology \<Rightarrow> int list list list \<Rightarrow> addr \<Rightarrow> addr \<Rightarrow> addr \<Rightarrow>
   nat \<Rightarrow> nat \<Rightarrow> nat \<Rightarrow> store \<Rightarrow> error + store" where
  "assign_pair self ZiZj batch distance_matrix distance_matrix_mask im ir ie s =
     (let element = get3 (float3 (s ! batch)) im ir ie in
      if 0 < element \<and> ir \<noteq> ie then
        (if in_range3 ZiZj im ir ie then
           (case gauss_expand (of_int (get3 ZiZj im ir ie) / element)
                   (n_distance self) (distance_min self) (distance_max self) of
              Inl e \<Rightarrow> Inl e
            | Inr v \<Rightarrow>
                Inr (store3 distance_matrix_mask im ir ie 1
                      (store4 distance_matrix im ir ie v s)))
         else Inl IndexError)
      else
        Inr (store3 distance_matrix_mask im ir ie 0
              (store4 distance_matrix im ir ie
                 (map (\<lambda>_. Fin 0) (get3 (float4 (s ! distance_matrix)) im ir ie)) s)))"

text \<open>The three nested \<^verbatim>\<open>for ... in enumerate(...)\<close> loops, innermost first.\<close>

fun elements_loop ::
  "DTNNGraphTopology \<Rightarrow> int list list list \<Rightarrow> addr \<Rightarrow> addr \<Rightarrow> addr \<Rightarrow>
   nat \<Rightarrow> nat \<Rightarrow> nat list \<Rightarrow> store \<Rightarrow> error + store" where
  "elements_loop self ZiZj batch dm dmask im ir [] s = Inr s"
| "elements_loop self ZiZj batch dm dmask im ir (ie # ies) s =
     (case assign_pair self ZiZj batch dm dmask im ir ie s of
        Inl e \<Rightarrow> Inl e
      | Inr s' \<Rightarrow> elements_loop self ZiZj batch dm dmask im ir ies s')"

fun rows_loop ::
  "DTNNGraphTopology \<Rightarrow> int list list list \<Rightarrow> addr \<Rightarrow> addr \<Rightarrow> addr \<Rightarrow>
   nat \<Rightarrow> nat list \<Rightarrow> store \<Rightarrow> error + store" where
  "rows_loop self ZiZj batch dm dmask im [] s = Inr s"
| "rows_loop self ZiZj batch dm dmask im (ir # irs) s =
     (case elements_loop self ZiZj batch dm dmask im ir
             [0..<length (float3 (s ! batch) ! im ! ir)] s of
        Inl e \<Rightarrow> Inl e
      | Inr s' \<Rightarrow> rows_loop self ZiZj batch dm dmask im irs s')"

fun molecules_loop ::
  "DTNNGraphTopology \<Rightarrow> int list list list \<Rightarrow> addr \<Rightarrow> addr \<Rightarrow> addr \<Rightarrow>
   nat list \<Rightarrow> store \<Rightarrow> error + store" where
  "molecules_loop self ZiZj batch dm dmask [] s = Inr s"
| "molecules_loop self ZiZj batch dm dmask (im # ims) s =
     (case rows_loop self ZiZj batch dm dmask im [0..<length (float3 (s ! batch) ! im)] s of
        Inl e \<Rightarrow> Inl e
      | Inr s' \<Rightarrow> molecules_loop self ZiZj batch dm dmask ims s')"

text \<open>
  \<^verbatim>\<open>
    atom_number = np.asarray(list(map(np.diag, batch)))
    atom_mask = np.sign(atom_number)
    atom_number = np.asarray(
        np.round(np.power(2 * atom_number, 1 / 2.4)), dtype=int)
    ZiZj = []
    for molecule in atom_number:
      ZiZj.append(np.outer(molecule, molecule))
    ZiZj = np.asarray(ZiZj)
    distance_matrix = np.expand_dims(batch[:], axis=3)
    distance_matrix = np.concatenate(
        [distance_matrix] * self.n_distance, axis=3)
    distance_matrix_mask = batch[:]
    for im, molecule in enumerate(batch): ...
    dict_DTNN = {
        self.atom_number_placeholder: atom_number,
        self.atom_mask_placeholder: atom_mask,
        self.distance_matrix_placeholder: distance_matrix,
        self.distance_matrix_mask_placeholder: distance_matrix_mask
    }
    return dict_DTNN
  \<close>
  The argument is a reference to a three-dimensional float array (the docstring's
  \<^verbatim>\<open>np.ndarray\<close> of Coulomb matrices); any other reference is outside the input type
  and is reported as \<open>TypeError\<close>. \<^verbatim>\<open>np.sign\<close>, \<^verbatim>\<open>np.asarray\<close> of a list and
  \<^verbatim>\<open>np.concatenate\<close> allocate; \<^verbatim>\<open>np.concatenate\<close> of an empty list raises
  \<^verbatim>\<open>ValueError\<close>; \<^verbatim>\<open>batch[:]\<close> allocates nothing. The feed dictionary maps each
  placeholder to the reference stored under it.
\<close>

definition batch_to_feed_dict ::
  "platform \<Rightarrow> DTNNGraphTopology \<Rightarrow> addr \<Rightarrow> store \<Rightarrow>
   error + ((placeholder \<rightharpoonup> addr) \<times> store)" where
  "batch_to_feed_dict pf self batch s =
     (if batch < length s \<and> is_Float3 (s ! batch) then
        let b = float3 (s ! batch);
            diagonals = map np_diag b;
            (atom_mask, s1) = alloc (Float2 (map (map np_sign) diagonals)) s;
            numbers = map (map (recover_atom_number pf)) diagonals;
            (atom_number, s2) = alloc (Int2 numbers) s1;
            ZiZj = map (\<lambda>molecule. np_outer molecule molecule) numbers
        in if count_value (n_distance self) \<le> 0 then Inl ValueError
           else
             let (distance_matrix, s3) =
                   alloc (Float4 (map (map (map (\<lambda>v. replicate (nat (count_value (n_distance self))) (Fin v)))) b)) s2;
                 distance_matrix_mask = batch
             in case molecules_loop self ZiZj batch distance_matrix distance_matrix_mask
                       [0..<length b] s3 of
                  Inl e \<Rightarrow> Inl e
                | Inr s4 \<Rightarrow>
                    Inr ([atom_number_placeholder \<mapsto> atom_number,
                          atom_mask_placeholder \<mapsto> atom_mask,
                          distance_matrix_placeholder \<mapsto> distance_matrix,
                          distance_matrix_mask_placeholder \<mapsto> distance_matrix_mask], s4)
      else Inl TypeError)"

section \<open>Merging dictionaries\<close>

text \<open>
  \<^verbatim>\<open>
  def merge_two_dicts(x, y):
    z = x.copy()
    z.update(y)
    return z

  def merge_dicts(l):
    merged = {}
    for dict in l:
      merged = merge_two_dicts(merged, dict)
    return merged
  \<close>
  Dictionaries are objects too: \<open>dicts\<close> is the list of the live dictionaries, each a
  map from keys to values, and the functions take and return references into it.
  \<^verbatim>\<open>x.copy()\<close> and \<^verbatim>\<open>{}\<close> allocate a dictionary; \<^verbatim>\<open>z.update(y)\<close> writes into \<open>z\<close>.
\<close>

type_synonym ('k, 'v) dicts = "('k \<rightharpoonup> 'v) list"

definition merge_two_dicts :: "addr \<Rightarrow> addr \<Rightarrow> ('k, 'v) dicts \<Rightarrow> addr \<times> ('k, 'v) dicts" where
  "merge_two_dicts x y h =
     (let z = length h;
          h1 = h @ [h ! x];
          h2 = h1[z := (h1 ! z) ++ (h1 ! y)]
      in (z, h2))"

fun merge_loop :: "addr \<Rightarrow> addr list \<Rightarrow> ('k, 'v) dicts \<Rightarrow> addr \<times> ('k, 'v) dicts" where
  "merge_loop merged [] h = (merged, h)"
| "merge_loop merged (d # l) h =
     (case merge_two_dicts merged d h of (merged', h') \<Rightarrow> merge_loop merged' l h')"

definition merge_dicts :: "addr list \<Rightarrow> ('k, 'v) dicts \<Rightarrow> addr \<times> ('k, 'v) dicts" where
  "merge_dicts l h = merge_loop (length h) l (h @ [Map.empty])"

section \<open>What the loops compute\<close>

text \<open>
  The values the loop body writes at one pair, as functions of the element it read; and
  the relation between the store before and after the pairs of a set \<open>P\<close> have been
  processed, each once: at the pairs of \<open>P\<close> the two arrays hold the values computed from
  the \<^emph>\<open>earlier\<close> store, everything else is as it was.
\<close>

definition mask_value :: "real \<Rightarrow> nat \<Rightarrow> nat \<Rightarrow> real" where
  "mask_value element ir ie = (if 0 < element \<and> ir \<noteq> ie then 1 else 0)"

definition feature_value ::
  "DTNNGraphTopology \<Rightarrow> int list list list \<Rightarrow> nat \<Rightarrow> nat \<Rightarrow> nat \<Rightarrow> real \<Rightarrow>
   npfloat list \<Rightarrow> npfloat list" where
  "feature_value self ZiZj im ir ie element old =
     (if 0 < element \<and> ir \<noteq> ie then
        (case gauss_expand (of_int (get3 ZiZj im ir ie) / element)
                (n_distance self) (distance_min self) (distance_max self) of
           Inl e \<Rightarrow> old
         | Inr v \<Rightarrow> v)
      else map (\<lambda>_. Fin 0) old)"

definition ready :: "addr \<Rightarrow> addr \<Rightarrow> store \<Rightarrow> bool" where
  "ready b dm s \<longleftrightarrow>
     b < length s \<and> dm < length s \<and> b \<noteq> dm \<and> is_Float3 (s ! b) \<and> is_Float4 (s ! dm) \<and>
     dims3 (float4 (s ! dm)) = dims3 (float3 (s ! b))"

definition encoded ::
  "DTNNGraphTopology \<Rightarrow> int list list list \<Rightarrow> addr \<Rightarrow> addr \<Rightarrow> (nat \<times> nat \<times> nat) set \<Rightarrow>
   store \<Rightarrow> store \<Rightarrow> bool" where
  "encoded self ZiZj b dm P s s' \<longleftrightarrow>
     length s' = length s \<and>
     (\<forall>a. a \<noteq> b \<and> a \<noteq> dm \<longrightarrow> s' ! a = s ! a) \<and>
     is_Float3 (s' ! b) \<and> is_Float4 (s' ! dm) \<and>
     dims3 (float3 (s' ! b)) = dims3 (float3 (s ! b)) \<and>
     dims3 (float4 (s' ! dm)) = dims3 (float4 (s ! dm)) \<and>
     (\<forall>m i j. get3 (float3 (s' ! b)) m i j =
        (if (m, i, j) \<in> P then mask_value (get3 (float3 (s ! b)) m i j) i j
         else get3 (float3 (s ! b)) m i j)) \<and>
     (\<forall>m i j. get3 (float4 (s' ! dm)) m i j =
        (if (m, i, j) \<in> P
         then feature_value self ZiZj m i j (get3 (float3 (s ! b)) m i j)
                (get3 (float4 (s ! dm)) m i j)
         else get3 (float4 (s ! dm)) m i j))"

text \<open>A batch of square matrices of side \<open>N\<close>.\<close>

definition square_batch :: "nat \<Rightarrow> 'a list list list \<Rightarrow> bool" where
  "square_batch N b \<longleftrightarrow> (\<forall>m<length b. length (b ! m) = N \<and> (\<forall>i<N. length (b ! m ! i) = N))"

text \<open>
  Two platforms for concrete runs: on both a double that does not fit 64 bits is converted
  to \<open>- 2\<^sup>6\<^sup>3\<close>, as on x86-64; the power of the first is exact, that of the second a
  thousandth too large.
\<close>

definition exact_x86 :: platform where
  "exact_x86 = \<lparr>np_pow = (\<lambda>x a. x powr a), np_cast = (\<lambda>_. - (2 ^ 63))\<rparr>"

definition coarse_x86 :: platform where
  "coarse_x86 =
     \<lparr>np_pow = (\<lambda>x a. x powr a * (1 + 1 / 1000)), np_cast = (\<lambda>_. - (2 ^ 63))\<rparr>"

section \<open>Properties of the Gaussian expansion\<close>

lemma np_round_of_int: "np_round (of_int z) = z"
  by (simp add: np_round_def)

lemma gauss_expand_length:
  "count_value n \<noteq> 0 \<Longrightarrow> \<exists>v. gauss_expand d n lo hi = Inr v \<and> length v = nat (count_value n)"
  by (simp add: gauss_expand_def Let_def)

text \<open>
  C6. For \<open>n_distance \<ge> 1\<close>, \<open>gauss_expand\<close> returns the vector whose \<open>i\<close>-th entry, for
  \<open>i\<close> in \<open>[0, n_distance)\<close>, is the unnormalised kernel
  \<open>exp (- (d - (distance_min + i * step))\<^sup>2 / (2 * step\<^sup>2))\<close> with
  \<open>step = (distance_max - distance_min) / n_distance\<close>. Where \<open>distance_max = distance_min\<close>
  the step is zero and the quotient of the formula is the floating-point one: \<^verbatim>\<open>nan\<close> for
  \<open>0 / 0\<close>, and \<open>exp\<close> of minus infinity, which is 0, otherwise.
\<close>

theorem gauss_expand_formula:
  assumes "1 \<le> count_value n"
  shows "gauss_expand d n lo hi =
           Inr (map (\<lambda>i. if scalar_value hi = scalar_value lo
                          then (if d = scalar_value lo then NaN else Fin 0)
                          else Fin (gauss_value d (count_value n) (scalar_value lo)
                                      (scalar_value hi) i))
                  [0..<nat (count_value n)])"
  using assms
  by (auto simp: gauss_expand_def np_div_def gauss_value_def gauss_center_def Let_def)

theorem gauss_expand_formula_witness:
  "(1::int) \<le> count_value (PythonInt 2) \<and>
   gauss_expand 3 (PythonInt 2) (Python 0) (Python 4) =
     Inr [Fin (gauss_value 3 2 0 4 0), Fin (gauss_value 3 2 0 4 1)]"
  using gauss_expand_formula [of "PythonInt 2" 3 "Python 0" "Python 4"] by (simp add: upt_rec)

text \<open>
  C7, as the code has it. For \<open>n_distance \<ge> 1\<close> the output of \<open>gauss_expand\<close> has length
  \<open>n_distance\<close>, at every distance; and its entry \<open>k\<close> at the \<open>k\<close>-th centre is exactly 1
  when the denominator \<open>2 * step\<^sup>2\<close> that the code divides by is not zero (in exact
  arithmetic: when \<open>distance_min \<noteq> distance_max\<close>).
\<close>

theorem gauss_expand_peak:
  assumes "1 \<le> count_value n" and "k < nat (count_value n)"
  shows "(\<forall>d. \<exists>v. gauss_expand d n lo hi = Inr v \<and> length v = nat (count_value n)) \<and>
         (2 * ((scalar_value hi - scalar_value lo) / of_int (count_value n))\<^sup>2 \<noteq> 0 \<longrightarrow>
            (\<exists>v. gauss_expand
                    (gauss_center (scalar_value lo) (scalar_value hi) (count_value n) k)
                    n lo hi = Inr v \<and>
                  v ! k = Fin 1))"
  using assms
  by (auto simp: gauss_expand_def np_div_def gauss_center_def Let_def)

theorem gauss_expand_peak_witness:
  "(1::int) \<le> count_value (PythonInt 2) \<and> (1::nat) < nat (count_value (PythonInt 2)) \<and>
   (\<forall>d. \<exists>v. gauss_expand d (PythonInt 2) (Python 0) (Python 4) = Inr v \<and> length v = 2) \<and>
   2 * ((4 - 0) / 2 :: real)\<^sup>2 \<noteq> 0 \<and>
   (\<exists>v. gauss_expand (gauss_center 0 4 2 1) (PythonInt 2) (Python 0) (Python 4) = Inr v \<and>
        v ! 1 = Fin 1)"
  using gauss_expand_peak [of "PythonInt 2" 1 "Python 0" "Python 4"] by simp

text \<open>
  C7 as stated fails when \<open>distance_min = distance_max\<close>: the step is zero, the kernel
  at the centre is \<open>0 / 0\<close> and the entry is \<^verbatim>\<open>nan\<close>, not 1.
\<close>

theorem gauss_expand_peak_counterexample:
  "gauss_expand (gauss_center 0 0 1 0) (PythonInt 1) (Python 0) (Python 0) = Inr [NaN]"
  by (simp add: gauss_expand_def np_div_def gauss_center_def)




section \<open>Properties of merging\<close>

lemma foldl_map_add_dom:
  "dom (foldl (++) m ds) = dom m \<union> (\<Union>d\<in>set ds. dom d)"
  by (induction ds arbitrary: m) auto

lemma foldl_map_add_last:
  "i < length ds \<Longrightarrow> (ds ! i) k = Some v \<Longrightarrow> (\<forall>j. i < j \<and> j < length ds \<longrightarrow> (ds ! j) k = None)
    \<Longrightarrow> foldl (++) m ds k = Some v"
proof (induction ds arbitrary: i rule: rev_induct)
  case Nil
  then show ?case by simp
next
  case (snoc d ds)
  show ?case
  proof (cases "i < length ds")
    case True
    have dk: "d k = None" using snoc.prems(3) True
      by (metis length_append_singleton lessI nth_append_length)
    have "foldl (++) m ds k = Some v"
    proof (rule snoc.IH [OF True])
      show "(ds ! i) k = Some v" using snoc.prems(2) True by (simp add: nth_append)
      show "\<forall>j. i < j \<and> j < length ds \<longrightarrow> (ds ! j) k = None"
        using snoc.prems(3) by (auto simp: nth_append split: if_splits)
    qed
    then show ?thesis using dk by (simp add: map_add_Some_iff)
  next
    case False
    then have "i = length ds" using snoc.prems(1) by simp
    then have "d k = Some v" using snoc.prems(2) by simp
    then show ?thesis by (simp add: map_add_Some_iff)
  qed
qed

lemma merge_two_dicts_eq:
  "x < length h \<Longrightarrow> y < length h \<Longrightarrow> merge_two_dicts x y h = (length h, h @ [(h ! x) ++ (h ! y)])"
  by (simp add: merge_two_dicts_def Let_def nth_append)

lemma merge_loop_spec:
  assumes "\<forall>a\<in>set l. a < n" and "n \<le> length hc" and "m < length hc"
  shows "\<exists>r h'. merge_loop m l hc = (r, h') \<and> take n h' = take n hc \<and> r < length h' \<and>
           (l \<noteq> [] \<longrightarrow> length hc \<le> r) \<and> (l = [] \<longrightarrow> r = m) \<and>
           length hc \<le> length h' \<and>
           h' ! r = foldl (++) (hc ! m) (map (\<lambda>a. hc ! a) l)"
  using assms
proof (induction l arbitrary: m hc)
  case Nil
  then show ?case by simp
next
  case (Cons d l)
  let ?h2 = "hc @ [(hc ! m) ++ (hc ! d)]"
  have d: "d < length hc" using Cons.prems by simp
  have step: "merge_two_dicts m d hc = (length hc, ?h2)"
    using Cons.prems d by (simp add: merge_two_dicts_eq)
  have "\<exists>r h'. merge_loop (length hc) l ?h2 = (r, h') \<and> take n h' = take n ?h2 \<and> r < length h' \<and>
           (l \<noteq> [] \<longrightarrow> length ?h2 \<le> r) \<and> (l = [] \<longrightarrow> r = length hc) \<and>
           length ?h2 \<le> length h' \<and>
           h' ! r = foldl (++) (?h2 ! length hc) (map (\<lambda>a. ?h2 ! a) l)"
    by (rule Cons.IH) (use Cons.prems in auto)
  then obtain r h' where r: "merge_loop (length hc) l ?h2 = (r, h')" "take n h' = take n ?h2" "r < length h'"
     "l \<noteq> [] \<longrightarrow> length ?h2 \<le> r" "l = [] \<longrightarrow> r = length hc" "length ?h2 \<le> length h'"
     "h' ! r = foldl (++) (?h2 ! length hc) (map (\<lambda>a. ?h2 ! a) l)" by blast
  have same: "map (\<lambda>a. ?h2 ! a) l = map (\<lambda>a. hc ! a) l"
    using Cons.prems by (auto simp: nth_append)
  have "merge_loop m (d # l) hc = (r, h')" using step r(1) by simp
  moreover have "take n h' = take n hc" using r(2) Cons.prems(2) by simp
  moreover have "length hc \<le> r" using r(4,5) by (cases "l = []") auto
  moreover have "h' ! r = foldl (++) (hc ! m) (map (\<lambda>a. hc ! a) (d # l))"
    using r(7) same by simp
  ultimately show ?case using r(3,6) by auto
qed

text \<open>
  C8. For every list \<open>l\<close> of dictionaries, \<open>merge_dicts\<close> returns a new dictionary whose
  keys are the union of the keys of the dictionaries of \<open>l\<close>; each key carries the value
  of the last dictionary of \<open>l\<close> that has it; and every dictionary that existed before the
  call, the inputs among them, is as it was.
\<close>

theorem merge_dicts_last_write_wins:
  assumes "\<forall>a\<in>set l. a < length h"
  shows "\<exists>r h'. merge_dicts l h = (r, h') \<and>
           take (length h) h' = h \<and> length h \<le> r \<and> r < length h' \<and>
           dom (h' ! r) = (\<Union>a\<in>set l. dom (h ! a)) \<and>
           (\<forall>i k v. i < length l \<and> (h ! (l ! i)) k = Some v \<and>
                    (\<forall>j. i < j \<and> j < length l \<longrightarrow> k \<notin> dom (h ! (l ! j)))
                    \<longrightarrow> (h' ! r) k = Some v)"
proof -
  let ?hc = "h @ [Map.empty]"
  have "\<exists>r h'. merge_loop (length h) l ?hc = (r, h') \<and> take (length h) h' = take (length h) ?hc \<and>
           r < length h' \<and> (l \<noteq> [] \<longrightarrow> length ?hc \<le> r) \<and> (l = [] \<longrightarrow> r = length h) \<and>
           length ?hc \<le> length h' \<and>
           h' ! r = foldl (++) (?hc ! length h) (map (\<lambda>a. ?hc ! a) l)"
    by (rule merge_loop_spec) (use assms in auto)
  then obtain r h' where r: "merge_loop (length h) l ?hc = (r, h')"
      "take (length h) h' = take (length h) ?hc" "r < length h'"
      "l \<noteq> [] \<longrightarrow> length ?hc \<le> r" "l = [] \<longrightarrow> r = length h"
      "h' ! r = foldl (++) (?hc ! length h) (map (\<lambda>a. ?hc ! a) l)"
    by blast
  have same: "map (\<lambda>a. ?hc ! a) l = map (\<lambda>a. h ! a) l"
    using assms by (auto simp: nth_append)
  have res: "h' ! r = foldl (++) Map.empty (map (\<lambda>a. h ! a) l)"
    using r(6) same by simp
  have fresh: "length h \<le> r"
    using r(4,5) by (cases "l = []") auto
  have keys: "dom (h' ! r) = (\<Union>a\<in>set l. dom (h ! a))"
    by (simp add: res foldl_map_add_dom)
  have last: "(h' ! r) k = Some v"
    if "i < length l" "(h ! (l ! i)) k = Some v"
       "\<forall>j. i < j \<and> j < length l \<longrightarrow> k \<notin> dom (h ! (l ! j))" for i k v
  proof -
    have "foldl (++) Map.empty (map (\<lambda>a. h ! a) l) k = Some v"
    proof (rule foldl_map_add_last [where i = i])
      show "i < length (map (\<lambda>a. h ! a) l)" using that(1) by simp
      show "(map (\<lambda>a. h ! a) l ! i) k = Some v" using that(1,2) by simp
      show "\<forall>j. i < j \<and> j < length (map (\<lambda>a. h ! a) l) \<longrightarrow> (map (\<lambda>a. h ! a) l ! j) k = None"
        using that(3) by (auto simp: domIff)
    qed
    then show ?thesis by (simp add: res)
  qed
  show ?thesis
  proof (intro exI conjI allI impI)
    show "merge_dicts l h = (r, h')"
      using r(1) by (simp add: merge_dicts_def)
    show "take (length h) h' = h"
      using r(2) by simp
    show "length h \<le> r" by (rule fresh)
    show "r < length h'" by (rule r(3))
    show "dom (h' ! r) = (\<Union>a\<in>set l. dom (h ! a))" by (rule keys)
    fix i k v
    assume a: "i < length l \<and> (h ! (l ! i)) k = Some v \<and>
                    (\<forall>j. i < j \<and> j < length l \<longrightarrow> k \<notin> dom (h ! (l ! j)))"
    show "(h' ! r) k = Some v"
      by (rule last [of i k v]) (use a in simp_all)
  qed
qed

theorem merge_dicts_last_write_wins_witness:
  "\<exists>r h'. merge_dicts [0, 1] [[1 \<mapsto> 10, 2 \<mapsto> 20], [2 \<mapsto> 21, 3 \<mapsto> (30::nat)]] = (r, h') \<and>
          take 2 h' = [[(1::nat) \<mapsto> 10, 2 \<mapsto> 20], [2 \<mapsto> 21, 3 \<mapsto> 30]] \<and>
          2 \<le> r \<and> dom (h' ! r) = {1, 2, 3} \<and> (h' ! r) 2 = Some 21"
proof -
  let ?h = "[[(1::nat) \<mapsto> 10, 2 \<mapsto> 20], [2 \<mapsto> 21, 3 \<mapsto> (30::nat)]]"
  have live: "\<forall>a\<in>set [0, 1]. a < length ?h" by simp
  note t = merge_dicts_last_write_wins [OF live]
  from t obtain r h' where
    r: "merge_dicts [0, 1] ?h = (r, h') \<and> take (length ?h) h' = ?h \<and> length ?h \<le> r \<and> r < length h' \<and>
       dom (h' ! r) = (\<Union>a\<in>set [0, 1]. dom (?h ! a)) \<and>
       (\<forall>i k v. i < length [0::nat, 1] \<and> (?h ! ([0, 1] ! i)) k = Some v \<and>
                (\<forall>j. i < j \<and> j < length [0::nat, 1] \<longrightarrow> k \<notin> dom (?h ! ([0, 1] ! j)))
                \<longrightarrow> (h' ! r) k = Some v)"
    by (elim exE) 
  have r5: "1 < length [0::nat, 1] \<and> (?h ! ([0, 1] ! 1)) 2 = Some 21 \<and>
                (\<forall>j. 1 < j \<and> j < length [0::nat, 1] \<longrightarrow> 2 \<notin> dom (?h ! ([0, 1] ! j)))
                \<longrightarrow> (h' ! r) 2 = Some 21"
    using r by blast
  have v2: "(h' ! r) 2 = Some 21"
    using r5 by simp
  have d2: "dom (h' ! r) = {1, 2, 3}"
    using r by auto
  have len: "length ?h = 2" by simp
  have m: "merge_dicts [0, 1] ?h = (r, h')" using r by (rule conjunct1)
  have "take (length ?h) h' = ?h \<and> length ?h \<le> r"
    using r by blast
  then have t2: "take 2 h' = ?h \<and> 2 \<le> r"
    unfolding len .
  show ?thesis
    using m t2 d2 v2 by (intro exI conjI) (rule m, simp_all only: t2 d2 v2)
qed

section \<open>The store after a run of the encoder\<close>

subsection \<open>Nested arrays\<close>

lemma dims3_set3: "dims3 (set3 b m i j v) = dims3 b"
proof (cases "m < length b")
  case True
  have "map length ((b ! m)[i := (b ! m ! i)[j := v]]) = map length (b ! m)"
    by (cases "i < length (b ! m)") (simp_all add: map_update list_update_same_conv list_update_beyond)
  then show ?thesis
    using True by (simp add: dims3_def set3_def map_update list_update_same_conv)
next
  case False
  then show ?thesis by (simp add: dims3_def set3_def list_update_beyond)
qed

lemma in_range3_dims3:
  "in_range3 b m i j \<longleftrightarrow>
     m < length (dims3 b) \<and> i < length (dims3 b ! m) \<and> j < dims3 b ! m ! i"
  by (auto simp: in_range3_def dims3_def)

lemma in_range3_cong: "dims3 a = dims3 b \<Longrightarrow> in_range3 a m i j = in_range3 b m i j"
  by (simp add: in_range3_dims3)

lemma dims3_lengths:
  assumes "dims3 a = dims3 b"
  shows "length a = length b"
    and "m < length b \<Longrightarrow> length (a ! m) = length (b ! m)"
    and "m < length b \<Longrightarrow> i < length (b ! m) \<Longrightarrow> length (a ! m ! i) = length (b ! m ! i)"
proof -
  show l: "length a = length b"
    using assms by (metis dims3_def length_map)
  show l2: "length (a ! m) = length (b ! m)" if "m < length b"
  proof -
    have "dims3 a ! m = dims3 b ! m" using assms by simp
    then have "map length (a ! m) = map length (b ! m)"
      using that l by (simp add: dims3_def)
    then show ?thesis by (metis length_map)
  qed
  show "length (a ! m ! i) = length (b ! m ! i)" if "m < length b" "i < length (b ! m)"
  proof -
    have "dims3 a ! m = dims3 b ! m" using assms by simp
    then have "map length (a ! m) = map length (b ! m)"
      using that l by (simp add: dims3_def)
    then have "map length (a ! m) ! i = map length (b ! m) ! i" by simp
    then show ?thesis using that l2 by simp
  qed
qed

lemma get3_set3_same: "in_range3 b m i j \<Longrightarrow> get3 (set3 b m i j v) m i j = v"
  by (simp add: in_range3_def get3_def set3_def)

lemma get3_set3_other:
  "(m', i', j') \<noteq> (m, i, j) \<Longrightarrow> get3 (set3 b m i j v) m' i' j' = get3 b m' i' j'"
  by (cases "m < length b"; cases "i < length (b ! m)"; cases "m' = m"; cases "i' = i")
     (auto simp: get3_def set3_def list_update_beyond)

lemma get3_set3:
  "in_range3 b m i j \<Longrightarrow>
   get3 (set3 b m i j v) m' i' j' = (if (m', i', j') = (m, i, j) then v else get3 b m' i' j')"
  using get3_set3_same [of b m i j v] get3_set3_other [of m' i' j' m i j b v] by auto

subsection \<open>One pair, and pairs one after another\<close>

lemma assign_pair_eq:
  assumes "count_value (n_distance self) \<noteq> 0" and "in_range3 Z im ir ie"
  shows "assign_pair self Z b dm mk im ir ie s =
           Inr (store3 mk im ir ie (mask_value (get3 (float3 (s ! b)) im ir ie) ir ie)
                 (store4 dm im ir ie
                    (feature_value self Z im ir ie (get3 (float3 (s ! b)) im ir ie)
                       (get3 (float4 (s ! dm)) im ir ie)) s))"
proof -
  obtain v where "gauss_expand (of_int (get3 Z im ir ie) / get3 (float3 (s ! b)) im ir ie)
                    (n_distance self) (distance_min self) (distance_max self) = Inr v"
    using gauss_expand_length [OF assms(1)] by blast
  then show ?thesis
    using assms(2) by (simp add: assign_pair_def mask_value_def feature_value_def Let_def)
qed

lemma stores_encoded:
  assumes r: "ready b dm s" and ib: "in_range3 (float3 (s ! b)) im ir ie"
  shows "encoded self Z b dm {(im, ir, ie)} s
           (store3 b im ir ie (mask_value (get3 (float3 (s ! b)) im ir ie) ir ie)
              (store4 dm im ir ie
                 (feature_value self Z im ir ie (get3 (float3 (s ! b)) im ir ie)
                    (get3 (float4 (s ! dm)) im ir ie)) s))"
proof -
  have id: "in_range3 (float4 (s ! dm)) im ir ie"
    using r ib by (simp add: ready_def in_range3_dims3)
  show ?thesis
    using r ib id
    by (simp add: encoded_def ready_def store3_def store4_def dims3_set3 get3_set3)
qed

lemma assign_pair_encoded:
  assumes "ready b dm s" and "count_value (n_distance self) \<noteq> 0"
    and "in_range3 (float3 (s ! b)) im ir ie" and "in_range3 Z im ir ie"
  shows "\<exists>s'. assign_pair self Z b dm b im ir ie s = Inr s' \<and>
              encoded self Z b dm {(im, ir, ie)} s s'"
  using assign_pair_eq [OF assms(2,4)] stores_encoded [OF assms(1,3)] by simp

lemma encoded_refl: "ready b dm s \<Longrightarrow> encoded self Z b dm {} s s"
  by (simp add: encoded_def ready_def)

lemma encoded_ready: "ready b dm s \<Longrightarrow> encoded self Z b dm P s s' \<Longrightarrow> ready b dm s'"
  by (simp add: encoded_def ready_def)

lemma encoded_dims:
  "encoded self Z b dm P s s' \<Longrightarrow> dims3 (float3 (s' ! b)) = dims3 (float3 (s ! b))"
  by (simp add: encoded_def)

lemma encoded_trans:
  assumes "encoded self Z b dm P s s'" and "encoded self Z b dm Q s' s''" and "P \<inter> Q = {}"
  shows "encoded self Z b dm (P \<union> Q) s s''"
proof -
  have d: "(m, i, j) \<in> Q \<Longrightarrow> (m, i, j) \<notin> P" for m i j
    using assms(3) by blast
  show ?thesis
    unfolding encoded_def
  proof (intro conjI allI impI)
    show "length s'' = length s" using assms(1,2) by (simp add: encoded_def)
    show "s'' ! a = s ! a" if "a \<noteq> b \<and> a \<noteq> dm" for a
      using assms(1,2) that by (simp add: encoded_def)
    show "is_Float3 (s'' ! b)" using assms(2) by (simp add: encoded_def)
    show "is_Float4 (s'' ! dm)" using assms(2) by (simp add: encoded_def)
    show "dims3 (float3 (s'' ! b)) = dims3 (float3 (s ! b))"
      using assms(1,2) by (simp add: encoded_def)
    show "dims3 (float4 (s'' ! dm)) = dims3 (float4 (s ! dm))"
      using assms(1,2) by (simp add: encoded_def)
    fix m i j
    have b2: "get3 (float3 (s'' ! b)) m i j =
        (if (m, i, j) \<in> Q then mask_value (get3 (float3 (s' ! b)) m i j) i j
         else get3 (float3 (s' ! b)) m i j)"
      using assms(2) by (simp add: encoded_def)
    have b1: "get3 (float3 (s' ! b)) m i j =
        (if (m, i, j) \<in> P then mask_value (get3 (float3 (s ! b)) m i j) i j
         else get3 (float3 (s ! b)) m i j)"
      using assms(1) by (simp add: encoded_def)
    show "get3 (float3 (s'' ! b)) m i j =
        (if (m, i, j) \<in> P \<union> Q then mask_value (get3 (float3 (s ! b)) m i j) i j
         else get3 (float3 (s ! b)) m i j)"
      using b1 b2 d [of m i j] by auto
    have d2: "get3 (float4 (s'' ! dm)) m i j =
        (if (m, i, j) \<in> Q
         then feature_value self Z m i j (get3 (float3 (s' ! b)) m i j)
                (get3 (float4 (s' ! dm)) m i j)
         else get3 (float4 (s' ! dm)) m i j)"
      using assms(2) by (simp add: encoded_def)
    have d1: "get3 (float4 (s' ! dm)) m i j =
        (if (m, i, j) \<in> P
         then feature_value self Z m i j (get3 (float3 (s ! b)) m i j)
                (get3 (float4 (s ! dm)) m i j)
         else get3 (float4 (s ! dm)) m i j)"
      using assms(1) by (simp add: encoded_def)
    show "get3 (float4 (s'' ! dm)) m i j =
        (if (m, i, j) \<in> P \<union> Q
         then feature_value self Z m i j (get3 (float3 (s ! b)) m i j)
                (get3 (float4 (s ! dm)) m i j)
         else get3 (float4 (s ! dm)) m i j)"
      using b1 d1 d2 d [of m i j] by auto
  qed
qed

subsection \<open>The loops\<close>

lemma elements_loop_encoded:
  assumes "ready b dm s" and "count_value (n_distance self) \<noteq> 0" and "distinct ies"
    and "\<forall>ie\<in>set ies. in_range3 (float3 (s ! b)) im ir ie \<and> in_range3 Z im ir ie"
  shows "\<exists>s'. elements_loop self Z b dm b im ir ies s = Inr s' \<and>
              encoded self Z b dm ((\<lambda>ie. (im, ir, ie)) ` set ies) s s'"
  using assms
proof (induction ies arbitrary: s)
  case Nil
  then show ?case by (simp add: encoded_refl)
next
  case (Cons ie ies)
  obtain s1 where s1: "assign_pair self Z b dm b im ir ie s = Inr s1"
      "encoded self Z b dm {(im, ir, ie)} s s1"
    using assign_pair_encoded [of b dm s self im ir ie Z] Cons.prems by auto
  have r1: "ready b dm s1"
    using Cons.prems(1) s1(2) by (rule encoded_ready)
  have same: "in_range3 (float3 (s1 ! b)) m i j = in_range3 (float3 (s ! b)) m i j" for m i j
    using encoded_dims [OF s1(2)] by (rule in_range3_cong)
  have "\<exists>s'. elements_loop self Z b dm b im ir ies s1 = Inr s' \<and>
              encoded self Z b dm ((\<lambda>ie. (im, ir, ie)) ` set ies) s1 s'"
    using r1 Cons.prems(2) 
  proof (rule Cons.IH)
    show "distinct ies" using Cons.prems(3) by simp
    show "\<forall>ie\<in>set ies. in_range3 (float3 (s1 ! b)) im ir ie \<and> in_range3 Z im ir ie"
      using Cons.prems(4) by (simp add: same)
  qed
  then obtain s' where s': "elements_loop self Z b dm b im ir ies s1 = Inr s'"
      "encoded self Z b dm ((\<lambda>ie. (im, ir, ie)) ` set ies) s1 s'"
    by blast
  have disj: "{(im, ir, ie)} \<inter> (\<lambda>ie. (im, ir, ie)) ` set ies = {}"
    using Cons.prems(3) by auto
  have "encoded self Z b dm ({(im, ir, ie)} \<union> (\<lambda>ie. (im, ir, ie)) ` set ies) s s'"
    using s1(2) s'(2) disj by (rule encoded_trans)
  then have "encoded self Z b dm ((\<lambda>ie. (im, ir, ie)) ` set (ie # ies)) s s'"
    by simp
  moreover have "elements_loop self Z b dm b im ir (ie # ies) s = Inr s'"
    using s1(1) s'(1) by simp
  ultimately show ?case by blast
qed

lemma rows_loop_encoded:
  assumes "ready b dm s" and "count_value (n_distance self) \<noteq> 0" and "distinct irs"
    and "im < length (float3 (s ! b))"
    and "\<forall>ir\<in>set irs. ir < length (float3 (s ! b) ! im)"
    and "dims3 Z = dims3 (float3 (s ! b))"
  shows "\<exists>s'. rows_loop self Z b dm b im irs s = Inr s' \<and>
              encoded self Z b dm
                {(m, i, j). m = im \<and> i \<in> set irs \<and> in_range3 (float3 (s ! b)) m i j} s s'"
  using assms
proof (induction irs arbitrary: s)
  case Nil
  then show ?case by (simp add: encoded_refl)
next
  case (Cons ir irs)
  let ?B = "float3 (s ! b)"
  let ?ies = "[0..<length (?B ! im ! ir)]"
  have ir: "ir < length (?B ! im)" using Cons.prems(5) by simp
  have "\<exists>s'. elements_loop self Z b dm b im ir ?ies s = Inr s' \<and>
              encoded self Z b dm ((\<lambda>ie. (im, ir, ie)) ` set ?ies) s s'"
    using Cons.prems(1,2)
  proof (rule elements_loop_encoded)
    show "distinct ?ies" by simp
    show "\<forall>ie\<in>set ?ies. in_range3 ?B im ir ie \<and> in_range3 Z im ir ie"
      using Cons.prems(4) ir in_range3_cong [OF Cons.prems(6)]
      by (simp add: in_range3_def)
  qed
  then obtain s1 where s1: "elements_loop self Z b dm b im ir ?ies s = Inr s1"
      "encoded self Z b dm ((\<lambda>ie. (im, ir, ie)) ` set ?ies) s s1"
    by blast
  have r1: "ready b dm s1"
    using Cons.prems(1) s1(2) by (rule encoded_ready)
  have d1: "dims3 (float3 (s1 ! b)) = dims3 ?B"
    using s1(2) by (rule encoded_dims)
  have same: "in_range3 (float3 (s1 ! b)) m i j = in_range3 ?B m i j" for m i j
    using d1 by (rule in_range3_cong)
  have "\<exists>s'. rows_loop self Z b dm b im irs s1 = Inr s' \<and>
              encoded self Z b dm
                {(m, i, j). m = im \<and> i \<in> set irs \<and> in_range3 (float3 (s1 ! b)) m i j} s1 s'"
    using r1 Cons.prems(2)
  proof (rule Cons.IH)
    show "distinct irs" using Cons.prems(3) by simp
    show "im < length (float3 (s1 ! b))"
      using Cons.prems(4) dims3_lengths(1) [OF d1] by simp
    show "\<forall>ir\<in>set irs. ir < length (float3 (s1 ! b) ! im)"
      using Cons.prems(4,5) dims3_lengths(2) [OF d1, of im] by simp
    show "dims3 Z = dims3 (float3 (s1 ! b))"
      using Cons.prems(6) d1 by simp
  qed
  then obtain s' where s': "rows_loop self Z b dm b im irs s1 = Inr s'"
      "encoded self Z b dm {(m, i, j). m = im \<and> i \<in> set irs \<and> in_range3 ?B m i j} s1 s'"
    by (auto simp: same)
  have disj: "(\<lambda>ie. (im, ir, ie)) ` set ?ies \<inter>
              {(m, i, j). m = im \<and> i \<in> set irs \<and> in_range3 ?B m i j} = {}"
    using Cons.prems(3) by auto
  have un: "(\<lambda>ie. (im, ir, ie)) ` set ?ies \<union>
              {(m, i, j). m = im \<and> i \<in> set irs \<and> in_range3 ?B m i j} =
            {(m, i, j). m = im \<and> i \<in> set (ir # irs) \<and> in_range3 ?B m i j}"
    using Cons.prems(4) ir by (auto simp: in_range3_def)
  have "encoded self Z b dm ((\<lambda>ie. (im, ir, ie)) ` set ?ies \<union>
              {(m, i, j). m = im \<and> i \<in> set irs \<and> in_range3 ?B m i j}) s s'"
    using s1(2) s'(2) disj by (rule encoded_trans)
  then have "encoded self Z b dm
      {(m, i, j). m = im \<and> i \<in> set (ir # irs) \<and> in_range3 ?B m i j} s s'"
    unfolding un .
  moreover have "rows_loop self Z b dm b im (ir # irs) s = Inr s'"
    using s1(1) s'(1) by simp
  ultimately show ?case by blast
qed

lemma molecules_loop_encoded:
  assumes "ready b dm s" and "count_value (n_distance self) \<noteq> 0" and "distinct ims"
    and "\<forall>im\<in>set ims. im < length (float3 (s ! b))"
    and "dims3 Z = dims3 (float3 (s ! b))"
  shows "\<exists>s'. molecules_loop self Z b dm b ims s = Inr s' \<and>
              encoded self Z b dm
                {(m, i, j). m \<in> set ims \<and> in_range3 (float3 (s ! b)) m i j} s s'"
  using assms
proof (induction ims arbitrary: s)
  case Nil
  then show ?case by (simp add: encoded_refl)
next
  case (Cons im ims)
  let ?B = "float3 (s ! b)"
  let ?irs = "[0..<length (?B ! im)]"
  have im: "im < length ?B" using Cons.prems(4) by simp
  have "\<exists>s'. rows_loop self Z b dm b im ?irs s = Inr s' \<and>
              encoded self Z b dm
                {(m, i, j). m = im \<and> i \<in> set ?irs \<and> in_range3 ?B m i j} s s'"
    using Cons.prems(1,2)
  proof (rule rows_loop_encoded)
    show "distinct ?irs" by simp
    show "im < length ?B" by (rule im)
    show "\<forall>ir\<in>set ?irs. ir < length (?B ! im)" by simp
    show "dims3 Z = dims3 ?B" by (rule Cons.prems(5))
  qed
  then obtain s1 where s1: "rows_loop self Z b dm b im ?irs s = Inr s1"
      "encoded self Z b dm {(m, i, j). m = im \<and> i \<in> set ?irs \<and> in_range3 ?B m i j} s s1"
    by blast
  have r1: "ready b dm s1"
    using Cons.prems(1) s1(2) by (rule encoded_ready)
  have d1: "dims3 (float3 (s1 ! b)) = dims3 ?B"
    using s1(2) by (rule encoded_dims)
  have same: "in_range3 (float3 (s1 ! b)) m i j = in_range3 ?B m i j" for m i j
    using d1 by (rule in_range3_cong)
  have "\<exists>s'. molecules_loop self Z b dm b ims s1 = Inr s' \<and>
              encoded self Z b dm
                {(m, i, j). m \<in> set ims \<and> in_range3 (float3 (s1 ! b)) m i j} s1 s'"
    using r1 Cons.prems(2)
  proof (rule Cons.IH)
    show "distinct ims" using Cons.prems(3) by simp
    show "\<forall>im\<in>set ims. im < length (float3 (s1 ! b))"
      using Cons.prems(4) dims3_lengths(1) [OF d1] by simp
    show "dims3 Z = dims3 (float3 (s1 ! b))"
      using Cons.prems(5) d1 by simp
  qed
  then obtain s' where s': "molecules_loop self Z b dm b ims s1 = Inr s'"
      "encoded self Z b dm {(m, i, j). m \<in> set ims \<and> in_range3 ?B m i j} s1 s'"
    by (auto simp: same)
  have disj: "{(m, i, j). m = im \<and> i \<in> set ?irs \<and> in_range3 ?B m i j} \<inter>
              {(m, i, j). m \<in> set ims \<and> in_range3 ?B m i j} = {}"
    using Cons.prems(3) by auto
  have un: "{(m, i, j). m = im \<and> i \<in> set ?irs \<and> in_range3 ?B m i j} \<union>
              {(m, i, j). m \<in> set ims \<and> in_range3 ?B m i j} =
            {(m, i, j). m \<in> set (im # ims) \<and> in_range3 ?B m i j}"
    by (auto simp: in_range3_def)
  have "encoded self Z b dm ({(m, i, j). m = im \<and> i \<in> set ?irs \<and> in_range3 ?B m i j} \<union>
              {(m, i, j). m \<in> set ims \<and> in_range3 ?B m i j}) s s'"
    using s1(2) s'(2) disj by (rule encoded_trans)
  then have "encoded self Z b dm
      {(m, i, j). m \<in> set (im # ims) \<and> in_range3 ?B m i j} s s'"
    unfolding un .
  moreover have "molecules_loop self Z b dm b (im # ims) s = Inr s'"
    using s1(1) s'(1) by simp
  ultimately show ?case by blast
qed

subsection \<open>Diagonals, charge products and the expanded tensor\<close>

lemma np_diag_square:
  assumes "length M = N" and "\<forall>i<N. length (M ! i) = N"
  shows "np_diag M = map (\<lambda>i. M ! i ! i) [0..<N]"
proof (cases M)
  case Nil
  then show ?thesis using assms by (simp add: np_diag_def)
next
  case (Cons r rs)
  then have "0 < N" using assms(1) by auto
  then have "length r = N" using assms(2) Cons by (metis nth_Cons_0)
  then show ?thesis using assms(1) Cons by (simp add: np_diag_def)
qed

lemma dims3_expand: "dims3 (map (map (map f)) b) = dims3 b"
  by (simp add: dims3_def comp_def)

lemma get3_expand:
  "in_range3 b m i j \<Longrightarrow> get3 (map (map (map f)) b) m i j = f (get3 b m i j)"
  by (simp add: in_range3_def get3_def)

lemma dims3_ZiZj:
  assumes "square_batch N b"
  shows "dims3 (map (\<lambda>molecule. np_outer molecule molecule) (map (map f) (map np_diag b))) = dims3 b"
proof -
  have "map length (np_outer (map f (np_diag (b ! m))) (map f (np_diag (b ! m)))) =
        map length (b ! m)" if "m < length b" for m
  proof -
    have sq: "length (b ! m) = N" "\<forall>i<N. length (b ! m ! i) = N"
      using assms that by (auto simp: square_batch_def)
    have "np_diag (b ! m) = map (\<lambda>i. b ! m ! i ! i) [0..<N]"
      using sq by (rule np_diag_square)
    then show ?thesis
      using sq by (auto simp: np_outer_def comp_def intro!: nth_equalityI)
  qed
  then have "map (\<lambda>x. map length (np_outer (map f (np_diag x)) (map f (np_diag x)))) b =
             map (map length) b"
    by (intro nth_equalityI) simp_all
  then show ?thesis
    by (simp add: dims3_def comp_def)
qed

lemma get3_ZiZj:
  assumes "square_batch N b" and "in_range3 b m i j"
  shows "get3 (map (\<lambda>molecule. np_outer molecule molecule) (map (map f) (map np_diag b))) m i j =
         int64 (f (get3 b m i i) * f (get3 b m j j))"
proof -
  have m: "m < length b" and i: "i < length (b ! m)" and j: "j < length (b ! m ! i)"
    using assms(2) by (auto simp: in_range3_def)
  have sq: "length (b ! m) = N" "\<forall>i<N. length (b ! m ! i) = N"
    using assms(1) m by (auto simp: square_batch_def)
  have d: "np_diag (b ! m) = map (\<lambda>i. b ! m ! i ! i) [0..<N]"
    using sq by (rule np_diag_square)
  have "i < N" "j < N" using i j sq by auto
  then show ?thesis
    using m by (simp add: get3_def d np_outer_def)
qed

subsection \<open>The whole call\<close>

lemma batch_to_feed_dict_run:
  assumes live: "batch < length s" and arr: "s ! batch = Float3 b"
    and sq: "square_batch N b" and n: "1 \<le> count_value (n_distance self)"
  shows "\<exists>s'. batch_to_feed_dict pf self batch s =
                Inr ([atom_number_placeholder \<mapsto> length s + 1,
                      atom_mask_placeholder \<mapsto> length s,
                      distance_matrix_placeholder \<mapsto> length s + 2,
                      distance_matrix_mask_placeholder \<mapsto> batch], s') \<and>
           length s' = length s + 3 \<and>
           (\<forall>a<length s. a \<noteq> batch \<longrightarrow> s' ! a = s ! a) \<and>
           s' ! length s = Float2 (map (map np_sign) (map np_diag b)) \<and>
           s' ! (length s + 1) = Int2 (map (map (recover_atom_number pf)) (map np_diag b)) \<and>
           is_Float3 (s' ! batch) \<and> dims3 (float3 (s' ! batch)) = dims3 b \<and>
           is_Float4 (s' ! (length s + 2)) \<and> dims3 (float4 (s' ! (length s + 2))) = dims3 b \<and>
           (\<forall>m i j. in_range3 b m i j \<longrightarrow>
              get3 (float3 (s' ! batch)) m i j = mask_value (get3 b m i j) i j) \<and>
           (\<forall>m i j. in_range3 b m i j \<longrightarrow>
              get3 (float4 (s' ! (length s + 2))) m i j =
                feature_value self
                  (map (\<lambda>molecule. np_outer molecule molecule)
                     (map (map (recover_atom_number pf)) (map np_diag b)))
                  m i j (get3 b m i j) (replicate (nat (count_value (n_distance self))) (Fin (get3 b m i j))))"
proof -
  define mask0 where "mask0 = Float2 (map (map np_sign) (map np_diag b))"
  define numbers where "numbers = map (map (recover_atom_number pf)) (map np_diag b)"
  define Z where "Z = map (\<lambda>molecule. np_outer molecule molecule) numbers"
  define expanded where
    "expanded = map (map (map (\<lambda>v. replicate (nat (count_value (n_distance self))) (Fin v)))) b"
  define st where "st = s @ [mask0, Int2 numbers, Float4 expanded]"
  define dma where "dma = length s + 2"
  have len_st: "length st = length s + 3"
    by (simp add: st_def)
  have old: "st ! a = s ! a" if "a < length s" for a
    using that by (simp add: st_def nth_append)
  have at_b: "st ! batch = Float3 b"
    using live arr by (simp add: old)
  have at_0: "st ! length s = mask0"
    by (simp add: st_def)
  have at_1: "st ! (length s + 1) = Int2 numbers"
    by (simp add: st_def nth_append)
  have at_dm: "st ! dma = Float4 expanded"
    by (simp add: st_def dma_def nth_append)
  have dexp: "dims3 expanded = dims3 b"
    unfolding expanded_def by (rule dims3_expand)
  have neq: "batch \<noteq> dma" "batch \<noteq> length s" "batch \<noteq> length s + 1"
      "length s \<noteq> dma" "length s + 1 \<noteq> dma" "dma < length st"
    using live by (simp_all add: dma_def len_st)
  have rdy: "ready batch dma st"
    unfolding ready_def at_b at_dm using live neq dexp by (simp add: len_st)
  have dZ: "dims3 Z = dims3 b"
    unfolding Z_def numbers_def using sq by (rule dims3_ZiZj)
  have "\<exists>s'. molecules_loop self Z batch dma batch [0..<length (float3 (st ! batch))] st = Inr s' \<and>
           encoded self Z batch dma
             {(m, i, j). m \<in> set [0..<length (float3 (st ! batch))] \<and>
                         in_range3 (float3 (st ! batch)) m i j} st s'"
    using rdy
  proof (rule molecules_loop_encoded)
    show "count_value (n_distance self) \<noteq> 0" using n by simp
    show "distinct [0..<length (float3 (st ! batch))]" by simp
    show "\<forall>im\<in>set [0..<length (float3 (st ! batch))]. im < length (float3 (st ! batch))"
      by simp
    show "dims3 Z = dims3 (float3 (st ! batch))"
      unfolding at_b using dZ by simp
  qed
  then obtain s' where run: "molecules_loop self Z batch dma batch [0..<length b] st = Inr s'"
    and enc0: "encoded self Z batch dma
             {(m, i, j). m \<in> set [0..<length b] \<and> in_range3 b m i j} st s'"
    unfolding at_b by auto
  have "{(m, i, j). m \<in> set [0..<length b] \<and> in_range3 b m i j} = {(m, i, j). in_range3 b m i j}"
    by (auto simp: in_range3_def)
  then have enc: "encoded self Z batch dma {(m, i, j). in_range3 b m i j} st s'"
    using enc0 by simp
  have res: "batch_to_feed_dict pf self batch s =
                Inr ([atom_number_placeholder \<mapsto> length s + 1,
                      atom_mask_placeholder \<mapsto> length s,
                      distance_matrix_placeholder \<mapsto> length s + 2,
                      distance_matrix_mask_placeholder \<mapsto> batch], s')"
    using live arr n run
    unfolding st_def dma_def Z_def numbers_def expanded_def mask0_def
    by (simp add: batch_to_feed_dict_def alloc_def Let_def del: map_map)
  have len: "length s' = length s + 3"
    using enc len_st by (simp add: encoded_def)
  have other: "s' ! a = st ! a" if "a \<noteq> batch" "a \<noteq> dma" for a
    using enc that by (simp add: encoded_def)
  have frame: "\<forall>a<length s. a \<noteq> batch \<longrightarrow> s' ! a = s ! a"
    using other old by (simp add: dma_def)
  have m1: "s' ! length s = Float2 (map (map np_sign) (map np_diag b))"
    using other [of "length s"] neq at_0 by (simp add: mask0_def)
  have m2: "s' ! (length s + 1) = Int2 (map (map (recover_atom_number pf)) (map np_diag b))"
    using other [of "length s + 1"] neq at_1 by (simp add: numbers_def)
  have t3: "is_Float3 (s' ! batch)" "dims3 (float3 (s' ! batch)) = dims3 b"
    using enc by (simp_all add: encoded_def at_b)
  have t4: "is_Float4 (s' ! (length s + 2))" "dims3 (float4 (s' ! (length s + 2))) = dims3 b"
    using enc dexp unfolding dma_def [symmetric] by (simp_all add: encoded_def at_dm)
  have v3: "get3 (float3 (s' ! batch)) m i j = mask_value (get3 b m i j) i j"
    if "in_range3 b m i j" for m i j
  proof -
    have "get3 (float3 (s' ! batch)) m i j =
        (if (m, i, j) \<in> {(m, i, j). in_range3 b m i j}
         then mask_value (get3 (float3 (st ! batch)) m i j) i j
         else get3 (float3 (st ! batch)) m i j)"
      using enc unfolding encoded_def by blast
    then show ?thesis using that by (simp add: at_b)
  qed
  have v4: "get3 (float4 (s' ! (length s + 2))) m i j =
              feature_value self
                  (map (\<lambda>molecule. np_outer molecule molecule)
                     (map (map (recover_atom_number pf)) (map np_diag b)))
                  m i j (get3 b m i j) (replicate (nat (count_value (n_distance self))) (Fin (get3 b m i j)))"
    if "in_range3 b m i j" for m i j
  proof -
    have "get3 (float4 (s' ! dma)) m i j =
        (if (m, i, j) \<in> {(m, i, j). in_range3 b m i j}
         then feature_value self Z m i j (get3 (float3 (st ! batch)) m i j)
                (get3 (float4 (st ! dma)) m i j)
         else get3 (float4 (st ! dma)) m i j)"
      using enc unfolding encoded_def by blast
    then have "get3 (float4 (s' ! dma)) m i j =
         feature_value self Z m i j (get3 b m i j) (get3 expanded m i j)"
      using that by (simp add: at_b at_dm)
    moreover have "get3 expanded m i j = replicate (nat (count_value (n_distance self))) (Fin (get3 b m i j))"
      unfolding expanded_def using that by (rule get3_expand)
    ultimately show ?thesis
      by (simp add: dma_def Z_def numbers_def)
  qed
  show ?thesis
    using res len frame m1 m2 t3 t4 v3 v4 by blast
qed

subsection \<open>The returned arrays, entry by entry\<close>

lemma square_in_range:
  "square_batch N b \<Longrightarrow> m < length b \<Longrightarrow> i < N \<Longrightarrow> j < N \<Longrightarrow> in_range3 b m i j"
  by (simp add: square_batch_def in_range3_def)

lemma diagonal_entry:
  assumes "square_batch N b" and "m < length b" and "i < N"
  shows "map (map f) (map np_diag b) ! m ! i = f (get3 b m i i)"
proof -
  have sq: "length (b ! m) = N" "\<forall>i<N. length (b ! m ! i) = N"
    using assms(1,2) by (auto simp: square_batch_def)
  have "np_diag (b ! m) = map (\<lambda>i. b ! m ! i ! i) [0..<N]"
    using sq by (rule np_diag_square)
  then show ?thesis
    using assms(2,3) by (simp add: get3_def)
qed

lemma batch_to_feed_dict_entries:
  assumes live: "batch < length s" and arr: "s ! batch = Float3 b"
    and sq: "square_batch N b" and n: "1 \<le> count_value (n_distance self)"
  shows "\<exists>s'. batch_to_feed_dict pf self batch s =
                Inr ([atom_number_placeholder \<mapsto> length s + 1,
                      atom_mask_placeholder \<mapsto> length s,
                      distance_matrix_placeholder \<mapsto> length s + 2,
                      distance_matrix_mask_placeholder \<mapsto> batch], s') \<and>
           length s' = length s + 3 \<and>
           (\<forall>a<length s. a \<noteq> batch \<longrightarrow> s' ! a = s ! a) \<and>
           (\<forall>m i. m < length b \<and> i < N \<longrightarrow>
              float2 (s' ! length s) ! m ! i = np_sign (get3 b m i i) \<and>
              int2 (s' ! (length s + 1)) ! m ! i = recover_atom_number pf (get3 b m i i)) \<and>
           (\<forall>m i j. m < length b \<and> i < N \<and> j < N \<longrightarrow>
              get3 (float3 (s' ! batch)) m i j = (if 0 < get3 b m i j \<and> i \<noteq> j then 1 else 0) \<and>
              (0 < get3 b m i j \<and> i \<noteq> j \<longrightarrow>
                 gauss_expand
                   (of_int (int64 (recover_atom_number pf (get3 b m i i) *
                                   recover_atom_number pf (get3 b m j j))) / get3 b m i j)
                   (n_distance self) (distance_min self) (distance_max self) =
                 Inr (get3 (float4 (s' ! (length s + 2))) m i j)) \<and>
              (\<not> (0 < get3 b m i j \<and> i \<noteq> j) \<longrightarrow>
                 get3 (float4 (s' ! (length s + 2))) m i j =
                 replicate (nat (count_value (n_distance self))) (Fin 0)))"
proof -
  define Z where "Z = map (\<lambda>molecule. np_outer molecule molecule)
                     (map (map (recover_atom_number pf)) (map np_diag b))"
  obtain s' where run: "batch_to_feed_dict pf self batch s =
                Inr ([atom_number_placeholder \<mapsto> length s + 1,
                      atom_mask_placeholder \<mapsto> length s,
                      distance_matrix_placeholder \<mapsto> length s + 2,
                      distance_matrix_mask_placeholder \<mapsto> batch], s')"
    and len: "length s' = length s + 3"
    and frame: "\<forall>a<length s. a \<noteq> batch \<longrightarrow> s' ! a = s ! a"
    and m1: "s' ! length s = Float2 (map (map np_sign) (map np_diag b))"
    and m2: "s' ! (length s + 1) = Int2 (map (map (recover_atom_number pf)) (map np_diag b))"
    and v3: "\<forall>m i j. in_range3 b m i j \<longrightarrow>
              get3 (float3 (s' ! batch)) m i j = mask_value (get3 b m i j) i j"
    and v4: "\<forall>m i j. in_range3 b m i j \<longrightarrow>
              get3 (float4 (s' ! (length s + 2))) m i j =
                feature_value self Z m i j (get3 b m i j)
                  (replicate (nat (count_value (n_distance self))) (Fin (get3 b m i j)))"
    using batch_to_feed_dict_run [OF live arr sq n, of pf] unfolding Z_def by blast
  have diag: "float2 (s' ! length s) ! m ! i = np_sign (get3 b m i i) \<and>
              int2 (s' ! (length s + 1)) ! m ! i = recover_atom_number pf (get3 b m i i)"
    if "m < length b \<and> i < N" for m i
  proof -
    have mi: "m < length b" "i < N" using that by simp_all
    have d1: "map (map np_sign) (map np_diag b) ! m ! i = np_sign (get3 b m i i)"
      using sq mi by (rule diagonal_entry)
    have d2: "map (map (recover_atom_number pf)) (map np_diag b) ! m ! i =
              recover_atom_number pf (get3 b m i i)"
      using sq mi by (rule diagonal_entry)
    show ?thesis
      unfolding m1 m2 ndarray.sel using d1 d2 by (rule conjI)
  qed
  have pair: "get3 (float3 (s' ! batch)) m i j = (if 0 < get3 b m i j \<and> i \<noteq> j then 1 else 0) \<and>
              (0 < get3 b m i j \<and> i \<noteq> j \<longrightarrow>
                 gauss_expand
                   (of_int (int64 (recover_atom_number pf (get3 b m i i) *
                                   recover_atom_number pf (get3 b m j j))) / get3 b m i j)
                   (n_distance self) (distance_min self) (distance_max self) =
                 Inr (get3 (float4 (s' ! (length s + 2))) m i j)) \<and>
              (\<not> (0 < get3 b m i j \<and> i \<noteq> j) \<longrightarrow>
                 get3 (float4 (s' ! (length s + 2))) m i j =
                 replicate (nat (count_value (n_distance self))) (Fin 0))"
    if "m < length b \<and> i < N \<and> j < N" for m i j
  proof -
    have ir: "in_range3 b m i j"
      using sq that by (simp add: square_in_range)
    have z: "get3 Z m i j =
             int64 (recover_atom_number pf (get3 b m i i) *
                    recover_atom_number pf (get3 b m j j))"
      unfolding Z_def using sq ir by (rule get3_ZiZj)
    obtain v where v: "gauss_expand
                   (of_int (int64 (recover_atom_number pf (get3 b m i i) *
                                   recover_atom_number pf (get3 b m j j))) / get3 b m i j)
                   (n_distance self) (distance_min self) (distance_max self) = Inr v"
      using gauss_expand_length [of "n_distance self"] n by fastforce
    have a: "get3 (float3 (s' ! batch)) m i j = mask_value (get3 b m i j) i j"
      using v3 ir by blast
    have c: "get3 (float4 (s' ! (length s + 2))) m i j =
                feature_value self Z m i j (get3 b m i j)
                  (replicate (nat (count_value (n_distance self))) (Fin (get3 b m i j)))"
      using v4 ir by blast
    show ?thesis
      unfolding a c using v by (simp add: mask_value_def feature_value_def z)
  qed
  show ?thesis
    using run len frame diag pair by blast
qed

section \<open>Properties of the Coulomb-matrix encoder\<close>

text \<open>
  In what follows \<open>s\<close> is the store before the call, \<open>batch\<close> the reference passed
  to \<open>batch_to_feed_dict\<close>, \<open>b\<close> the array it refers to then, a batch of square
  matrices of side \<open>N\<close>, and \<open>s'\<close> the store after the call. Concrete runs are
  evaluated with the definitions below.
\<close>

lemmas encoder_defs =
  batch_to_feed_dict_def alloc_def Let_def np_diag_def np_sign_def recover_atom_number_def
  np_power_def np_round_def np_outer_def assign_pair_def store3_def store4_def get3_def set3_def
  in_range3_def gauss_expand_def np_div_def int64_def exact_x86_def upt_rec numeral_2_eq_2 numeral_3_eq_3

lemma example_square: "square_batch 2 [[[1 / 2, 2], [2, 1 / 2 :: real]]]"
  by (auto simp: square_batch_def less_Suc_eq numeral_2_eq_2)

text \<open>
  Without a positive \<open>n_distance\<close> the call raises: \<^verbatim>\<open>[distance_matrix] * n_distance\<close>
  is the empty list.
\<close>

lemma batch_to_feed_dict_no_distance:
  assumes "batch < length s" and "is_Float3 (s ! batch)" and "count_value (n_distance self) \<le> 0"
  shows "batch_to_feed_dict pf self batch s = Inl ValueError"
  using assms by (simp add: batch_to_feed_dict_def alloc_def Let_def)

text \<open>
  C1. \<open>batch_to_feed_dict\<close> of the Coulomb-matrix encoder does not leave its input
  unchanged, and the distance mask it returns is not a new array. On the batch
  \<open>[[[0.5, 2], [2, 0.5]]]\<close> at address 0 the mask is returned at address 0 itself, and
  after the call the input holds the mask \<open>[[[0, 1], [1, 0]]]\<close>. The three other arrays
  are new (addresses 1, 2 and 3).
\<close>

theorem batch_to_feed_dict_overwrites_batch:
  "batch_to_feed_dict exact_x86 \<lparr>max_n_atoms = 2, n_distance = PythonInt 1, distance_min = Python 0,
         distance_max = Python 1\<rparr>
     0 [Float3 [[[1 / 2, 2], [2, 1 / 2]]]] =
   Inr ([atom_number_placeholder \<mapsto> 2, atom_mask_placeholder \<mapsto> 1,
         distance_matrix_placeholder \<mapsto> 3, distance_matrix_mask_placeholder \<mapsto> 0],
        [Float3 [[[0, 1], [1, 0]]], Float2 [[1, 1]], Int2 [[1, 1]],
         Float4 [[[[Fin 0], [Fin (exp (- (1 / 8)))]], [[Fin (exp (- (1 / 8)))], [Fin 0]]]]])"
  by (simp add: encoder_defs power2_eq_square)

subsection \<open>Rounding, conversion and the recovered atomic number\<close>

lemma np_round_near:
  assumes "\<bar>x - of_int z\<bar> < 1 / 2"
  shows "np_round x = z"
proof (cases "of_int z \<le> x")
  case True
  then have f: "\<lfloor>x\<rfloor> = z" using assms by (intro floor_unique) auto
  show ?thesis using assms True by (simp add: np_round_def f Let_def)
next
  case False
  then have f: "\<lfloor>x\<rfloor> = z - 1" using assms by (intro floor_unique) auto
  show ?thesis using assms False by (simp add: np_round_def f Let_def)
qed

lemma np_round_upper: "of_int (np_round x) \<le> x + 1 / 2"
proof -
  have "of_int \<lfloor>x\<rfloor> \<le> x" "x < of_int \<lfloor>x\<rfloor> + 1" by linarith+
  then show ?thesis
    unfolding np_round_def Let_def by (auto split: if_splits) linarith+
qed

lemma np_round_lower: "x - 1 / 2 \<le> of_int (np_round x)"
proof -
  have "of_int \<lfloor>x\<rfloor> \<le> x" "x < of_int \<lfloor>x\<rfloor> + 1" by linarith+
  then show ?thesis
    unfolding np_round_def Let_def by (auto split: if_splits) linarith+
qed

lemma np_round_positive:
  assumes "1 / 2 < x"
  shows "1 \<le> np_round x"
proof -
  have "0 < (of_int (np_round x) :: real)"
    using np_round_lower [of x] assms by linarith
  then show ?thesis by simp
qed

lemma int64_range: "- (2 ^ 63) \<le> int64 x" "int64 x < 2 ^ 63"
  by (simp_all add: int64_def)

lemma int64_fits: "- (2 ^ 63) \<le> x \<Longrightarrow> x < 2 ^ 63 \<Longrightarrow> int64 x = x"
  by (simp add: int64_def mod_pos_pos_trivial)

lemma recover_atom_number_range:
  "- (2 ^ 63) \<le> recover_atom_number pf c" "recover_atom_number pf c < 2 ^ 63"
proof -
  have "- (2 ^ 63) \<le> astype_int pf v \<and> astype_int pf v < 2 ^ 63" for v
    using int64_range by (cases v) (auto simp: Let_def)
  then show "- (2 ^ 63) \<le> recover_atom_number pf c" "recover_atom_number pf c < 2 ^ 63"
    by (simp_all add: recover_atom_number_def)
qed

lemma powr_fraction_bounds:
  fixes d :: real
  assumes "0 \<le> d" and "d < 1"
  shows "1 - d \<le> (1 - d) powr (1 / 2.4)" and "(1 + d) powr (1 / 2.4) \<le> 1 + d"
proof -
  have "(1 - d) powr 1 \<le> (1 - d) powr (1 / 2.4)"
    using assms by (intro powr_mono') auto
  then show "1 - d \<le> (1 - d) powr (1 / 2.4)" using assms by simp
  have "(1 + d) powr (1 / 2.4) \<le> (1 + d) powr 1"
    using assms by (intro powr_mono) auto
  then show "(1 + d) powr (1 / 2.4) \<le> 1 + d" using assms by simp
qed

lemma diagonal_power_bounds:
  fixes c d :: real and Z :: int
  assumes Z: "1 \<le> Z" and d: "0 \<le> d" "d < 1"
    and c: "\<bar>c - 0.5 * (of_int Z) powr 2.4\<bar> \<le> d * (0.5 * (of_int Z) powr 2.4)"
  shows "0 < c"
    and "(1 - d) * of_int Z \<le> (2 * c) powr (1 / 2.4)"
    and "(2 * c) powr (1 / 2.4) \<le> (1 + d) * of_int Z"
proof -
  define T where "T = (of_int Z :: real) powr 2.4"
  have T: "0 < T" using Z by (simp add: T_def)
  have root: "T powr (1 / 2.4) = of_int Z"
    using Z by (simp add: T_def powr_powr)
  have root': "T powr (5 / 12) = of_int Z"
    using root by simp
  have c': "\<bar>c - T / 2\<bar> \<le> d * (T / 2)"
    using c by (simp add: T_def)
  have lo: "(1 - d) * T \<le> 2 * c" and hi: "2 * c \<le> (1 + d) * T"
    using abs_le_D1 [OF c'] abs_le_D2 [OF c'] by (simp_all add: algebra_simps)
  have "0 < (1 - d) * T" using d T by simp
  then show cpos: "0 < c" using lo by linarith
  have "((1 - d) * T) powr (1 / 2.4) \<le> (2 * c) powr (1 / 2.4)"
    using lo d T by (intro powr_mono2) auto
  moreover have "((1 - d) * T) powr (1 / 2.4) = (1 - d) powr (1 / 2.4) * of_int Z"
    using d T by (simp add: powr_mult root')
  moreover have "(1 - d) * of_int Z \<le> (1 - d) powr (1 / 2.4) * of_int Z"
    using powr_fraction_bounds(1) [OF d] Z by (intro mult_right_mono) auto
  ultimately show "(1 - d) * of_int Z \<le> (2 * c) powr (1 / 2.4)" by linarith
  have "(2 * c) powr (1 / 2.4) \<le> ((1 + d) * T) powr (1 / 2.4)"
    using hi cpos by (intro powr_mono2) auto
  moreover have "((1 + d) * T) powr (1 / 2.4) = (1 + d) powr (1 / 2.4) * of_int Z"
    using d T by (simp add: powr_mult root')
  moreover have "(1 + d) powr (1 / 2.4) * of_int Z \<le> (1 + d) * of_int Z"
    using powr_fraction_bounds(2) [OF d] Z by (intro mult_right_mono) auto
  ultimately show "(2 * c) powr (1 / 2.4) \<le> (1 + d) * of_int Z" by linarith
qed

lemma recover_atom_number_zero: "recover_atom_number pf 0 = 0"
  by (simp add: recover_atom_number_def np_power_def np_round_def)

lemma recover_atom_number_positive:
  assumes "0 < c"
  shows "recover_atom_number pf c =
           astype_int pf (Fin (of_int (np_round (np_pow pf (2 * c) (1 / 2.4)))))"
  using assms by (simp add: recover_atom_number_def np_power_def)

lemma astype_int_fits:
  assumes "0 \<le> z" and "z < 2 ^ 63"
  shows "astype_int pf (Fin (of_int z)) = z"
  using assms by (simp add: Let_def)

lemma diagonal_zero:
  fixes c :: real
  assumes "\<bar>c - 0.5 * (of_int 0) powr 2.4\<bar> \<le> d * (0.5 * (of_int 0) powr 2.4)"
  shows "c = 0"
  using assms by simp

lemma recover_atom_number_accurate:
  fixes c d e :: real and Z :: int
  assumes Z: "0 \<le> Z" "Z < 2 ^ 63" and d: "0 \<le> d" and e: "0 \<le> e"
    and c: "\<bar>c - 0.5 * (of_int Z) powr 2.4\<bar> \<le> d * (0.5 * (of_int Z) powr 2.4)"
    and p: "\<bar>np_pow pf (2 * c) (1 / 2.4) - (2 * c) powr (1 / 2.4)\<bar>
              \<le> e * (2 * c) powr (1 / 2.4)"
    and small: "of_int Z * (d + e + d * e) < 1 / 2"
  shows "recover_atom_number pf c = Z"
proof (cases "Z = 0")
  case True
  then have "c = 0" using c by simp
  then show ?thesis using True by (simp add: recover_atom_number_zero)
next
  case False
  then have Z1: "1 \<le> Z" using Z by simp
  define q where "q = (2 * c) powr (1 / 2.4)"
  define p' where "p' = np_pow pf (2 * c) (1 / 2.4)"
  have nonneg: "0 \<le> d + e + d * e" using d e by simp
  have "1 * (d + e + d * e) \<le> of_int Z * (d + e + d * e)"
    using Z1 nonneg by (intro mult_right_mono) auto
  then have sum: "d + e + d * e < 1 / 2" using small by simp
  have "d \<le> d + e + d * e" using d e by simp
  then have d1: "d < 1" using sum by linarith
  have "e \<le> d + e + d * e" using d e by simp
  then have e1: "e < 1" using sum by linarith
  have cpos: "0 < c" and qlo: "(1 - d) * of_int Z \<le> q" and qhi: "q \<le> (1 + d) * of_int Z"
    unfolding q_def using diagonal_power_bounds [OF Z1 d d1 c] by auto
  have pq: "\<bar>p' - q\<bar> \<le> e * q" using p by (simp add: p'_def q_def)
  have p_hi: "p' \<le> (1 + e) * q" and p_lo: "(1 - e) * q \<le> p'"
    using abs_le_D1 [OF pq] abs_le_D2 [OF pq] by (simp_all add: algebra_simps)
  have "(1 + e) * q \<le> (1 + e) * ((1 + d) * of_int Z)"
    using qhi e by (intro mult_left_mono) auto
  then have up: "p' \<le> of_int Z + of_int Z * (d + e + d * e)"
    using p_hi by (simp add: algebra_simps)
  have "(1 - e) * ((1 - d) * of_int Z) \<le> (1 - e) * q"
    using qlo e1 by (intro mult_left_mono) auto
  then have "of_int Z - of_int Z * (d + e - d * e) \<le> p'"
    using p_lo by (simp add: algebra_simps)
  moreover have "of_int Z * (d + e - d * e) \<le> (of_int Z :: real) * (d + e + d * e)"
    using Z1 d e by (intro mult_left_mono) auto
  ultimately have down: "of_int Z - of_int Z * (d + e + d * e) \<le> p'"
    by linarith
  have "\<bar>p' - of_int Z\<bar> < 1 / 2"
    using up down small by linarith
  then have "np_round p' = Z" by (rule np_round_near)
  then show ?thesis
    using Z cpos by (simp only: recover_atom_number_positive p'_def [symmetric] astype_int_fits)
qed

lemma recover_atom_number_nonzero:
  fixes c :: real and Z :: int
  assumes Z1: "1 \<le> Z"
    and c: "\<bar>c - 0.5 * (of_int Z) powr 2.4\<bar> \<le> 1 / 4 * (0.5 * (of_int Z) powr 2.4)"
    and p: "\<bar>np_pow pf (2 * c) (1 / 2.4) - (2 * c) powr (1 / 2.4)\<bar>
              \<le> 1 / 4 * (2 * c) powr (1 / 2.4)"
    and fits: "Z \<le> 2 ^ 62 \<or> (\<forall>v. int64 (np_cast pf v) \<noteq> 0)"
  shows "0 < c" and "recover_atom_number pf c \<noteq> 0"
proof -
  define q where "q = (2 * c) powr (1 / 2.4)"
  define p' where "p' = np_pow pf (2 * c) (1 / 2.4)"
  define r where "r = np_round p'"
  show cpos: "0 < c"
    using diagonal_power_bounds(1) [OF Z1 _ _ c] by simp
  have qlo: "(1 - 1 / 4) * of_int Z \<le> q" and qhi: "q \<le> (1 + 1 / 4) * of_int Z"
    unfolding q_def using diagonal_power_bounds(2,3) [OF Z1 _ _ c] by auto
  have pq: "\<bar>p' - q\<bar> \<le> 1 / 4 * q" using p by (simp add: p'_def q_def)
  have p_hi: "p' \<le> 5 / 4 * q" and p_lo: "3 / 4 * q \<le> p'"
    using abs_le_D1 [OF pq] abs_le_D2 [OF pq] by simp_all
  have "3 / 4 \<le> q" using qlo Z1 by simp
  then have "1 / 2 < p'" using p_lo by simp
  then have r1: "1 \<le> r" unfolding r_def by (rule np_round_positive)
  have rec: "recover_atom_number pf c = astype_int pf (Fin (of_int r))"
    using cpos by (simp only: recover_atom_number_positive p'_def [symmetric] r_def)
  show "recover_atom_number pf c \<noteq> 0"
  proof (cases "r < 2 ^ 63")
    case True
    then have "astype_int pf (Fin (of_int r)) = r"
      using r1 by (intro astype_int_fits) auto
    then show ?thesis using rec r1 by simp
  next
    case False
    then have big: "(2 :: real) ^ 63 \<le> of_int r"
      by (metis not_less of_int_le_iff of_int_numeral of_int_power)
    have "of_int r \<le> p' + 1 / 2" unfolding r_def by (rule np_round_upper)
    moreover have "q \<le> 5 / 4 * of_int Z" using qhi by simp
    ultimately have "(of_int r :: real) \<le> 25 / 16 * of_int Z + 1 / 2"
      using p_hi by linarith
    then have "(2 :: real) ^ 62 < of_int Z"
      using big by simp
    then have "\<not> Z \<le> 2 ^ 62"
      by (metis not_less of_int_le_iff of_int_numeral of_int_power)
    then have nz: "int64 (np_cast pf (Fin (of_int r))) \<noteq> 0" using fits by blast
    have "astype_int pf (Fin (of_int r)) = int64 (np_cast pf (Fin (of_int r)))"
      using False r1 by (simp add: Let_def)
    then show ?thesis using rec nz by simp
  qed
qed

subsection \<open>The claims about the returned arrays\<close>

text \<open>
  C2. At every position of a Coulomb-matrix batch, that is where the diagonal entry is
  \<open>0.5 * Z ^ 2.4\<close> for an integer \<open>Z \<ge> 0\<close>, the atom mask is 1 where the returned
  atomic number is nonzero and 0 where it is zero. The double on the diagonal and the
  double that \<^verbatim>\<open>np.power\<close> returns need only be right to a quarter of their value; and
  either \<open>Z \<le> 2\<^sup>6\<^sup>2\<close>, so that the rounded power fits 64 bits, or the platform converts
  what does not fit to a nonzero integer, as x86-64 does.
\<close>

theorem atom_mask_matches_atom_number:
  fixes Z :: int
  assumes "batch < length s" and "s ! batch = Float3 b" and "square_batch N b"
    and "1 \<le> count_value (n_distance self)" and "m < length b" and "i < N"
    and "0 \<le> Z"
    and "\<bar>get3 b m i i - 0.5 * (of_int Z) powr 2.4\<bar> \<le> 1 / 4 * (0.5 * (of_int Z) powr 2.4)"
    and "\<bar>np_pow pf (2 * get3 b m i i) (1 / 2.4) - (2 * get3 b m i i) powr (1 / 2.4)\<bar>
           \<le> 1 / 4 * (2 * get3 b m i i) powr (1 / 2.4)"
    and "Z \<le> 2 ^ 62 \<or> (\<forall>v. int64 (np_cast pf v) \<noteq> 0)"
  shows "\<exists>fd s' an am. batch_to_feed_dict pf self batch s = Inr (fd, s') \<and>
           fd atom_number_placeholder = Some an \<and> fd atom_mask_placeholder = Some am \<and>
           float2 (s' ! am) ! m ! i = (if int2 (s' ! an) ! m ! i \<noteq> 0 then 1 else 0)"
proof -
  define fd where "fd = [atom_number_placeholder \<mapsto> length s + 1,
                      atom_mask_placeholder \<mapsto> length s,
                      distance_matrix_placeholder \<mapsto> length s + 2,
                      distance_matrix_mask_placeholder \<mapsto> batch]"
  obtain s' where run: "batch_to_feed_dict pf self batch s = Inr (fd, s')"
    and diag: "\<forall>m i. m < length b \<and> i < N \<longrightarrow>
              float2 (s' ! length s) ! m ! i = np_sign (get3 b m i i) \<and>
              int2 (s' ! (length s + 1)) ! m ! i = recover_atom_number pf (get3 b m i i)"
    using batch_to_feed_dict_entries [OF assms(1-4), of pf] unfolding fd_def by blast
  have look: "fd atom_number_placeholder = Some (length s + 1)"
      "fd atom_mask_placeholder = Some (length s)"
    by (simp_all add: fd_def)
  have d: "float2 (s' ! length s) ! m ! i = np_sign (get3 b m i i)"
      "int2 (s' ! (length s + 1)) ! m ! i = recover_atom_number pf (get3 b m i i)"
    using diag assms(5,6) by blast+
  have "np_sign (get3 b m i i) =
          (if recover_atom_number pf (get3 b m i i) \<noteq> 0 then 1 else 0)"
  proof (cases "Z = 0")
    case True
    then have "get3 b m i i = 0" using assms(8) by simp
    then show ?thesis by (simp add: np_sign_def recover_atom_number_zero)
  next
    case False
    then have Z1: "1 \<le> Z" using assms(7) by simp
    have "0 < get3 b m i i" "recover_atom_number pf (get3 b m i i) \<noteq> 0"
      using recover_atom_number_nonzero [OF Z1 assms(8,9,10)] by blast+
    then show ?thesis by (simp add: np_sign_def)
  qed
  then have "float2 (s' ! length s) ! m ! i =
               (if int2 (s' ! (length s + 1)) ! m ! i \<noteq> 0 then 1 else 0)"
    unfolding d .
  then show ?thesis
    using run look by blast
qed

theorem atom_mask_matches_atom_number_witness:
  "\<exists>fd s' an am.
     batch_to_feed_dict exact_x86
       \<lparr>max_n_atoms = 2, n_distance = PythonInt 1, distance_min = Python 0,
         distance_max = Python 1\<rparr> 0
       [Float3 [[[1 / 2, 2], [2, 1 / 2]]]] = Inr (fd, s') \<and>
     fd atom_number_placeholder = Some an \<and> fd atom_mask_placeholder = Some am \<and>
     float2 (s' ! am) ! 0 ! 0 = (if int2 (s' ! an) ! 0 ! 0 \<noteq> 0 then 1 else 0)"
  using atom_mask_matches_atom_number [where batch = 0 and s = "[Float3 [[[1 / 2, 2], [2, 1 / 2]]]]"
      and b = "[[[1 / 2, 2], [2, 1 / 2]]]" and N = 2 and m = 0 and i = 0 and Z = 1
      and pf = exact_x86 and self = "\<lparr>max_n_atoms = 2, n_distance = PythonInt 1, distance_min = Python 0,
         distance_max = Python 1\<rparr>"]
    example_square
  by (simp add: get3_def exact_x86_def)

text \<open>
  C3, as the code has it. For every molecule \<open>m\<close> and off-diagonal pair \<open>i \<noteq> j\<close> whose
  input value \<open>v\<close> is positive, the call succeeds, the distance mask is 1 at
  \<open>[m, i, j]\<close> and the expanded vector there is
  \<open>gauss_expand (ZiZj / v) n_distance distance_min distance_max\<close>, where \<open>ZiZj\<close> is the
  product, in 64-bit integers as \<^verbatim>\<open>np.outer\<close> computes it, of the returned atomic numbers
  of atoms \<open>i\<close> and \<open>j\<close> of the molecule.
\<close>

theorem interacting_pair_expanded:
  assumes "batch < length s" and "s ! batch = Float3 b" and "square_batch N b"
    and "1 \<le> count_value (n_distance self)" and "m < length b" and "i < N" and "j < N"
    and "i \<noteq> j" and "0 < get3 b m i j"
  shows "\<exists>fd s' an dm mk. batch_to_feed_dict pf self batch s = Inr (fd, s') \<and>
           fd atom_number_placeholder = Some an \<and>
           fd distance_matrix_placeholder = Some dm \<and>
           fd distance_matrix_mask_placeholder = Some mk \<and>
           get3 (float3 (s' ! mk)) m i j = 1 \<and>
           gauss_expand
             (of_int (int64 (int2 (s' ! an) ! m ! i * int2 (s' ! an) ! m ! j)) / get3 b m i j)
             (n_distance self) (distance_min self) (distance_max self) =
           Inr (get3 (float4 (s' ! dm)) m i j)"
proof -
  define fd where "fd = [atom_number_placeholder \<mapsto> length s + 1,
                      atom_mask_placeholder \<mapsto> length s,
                      distance_matrix_placeholder \<mapsto> length s + 2,
                      distance_matrix_mask_placeholder \<mapsto> batch]"
  obtain s' where run: "batch_to_feed_dict pf self batch s = Inr (fd, s')"
    and diag: "\<forall>m i. m < length b \<and> i < N \<longrightarrow>
              float2 (s' ! length s) ! m ! i = np_sign (get3 b m i i) \<and>
              int2 (s' ! (length s + 1)) ! m ! i = recover_atom_number pf (get3 b m i i)"
    and pair: "\<forall>m i j. m < length b \<and> i < N \<and> j < N \<longrightarrow>
              get3 (float3 (s' ! batch)) m i j = (if 0 < get3 b m i j \<and> i \<noteq> j then 1 else 0) \<and>
              (0 < get3 b m i j \<and> i \<noteq> j \<longrightarrow>
                 gauss_expand
                   (of_int (int64 (recover_atom_number pf (get3 b m i i) *
                                   recover_atom_number pf (get3 b m j j))) / get3 b m i j)
                   (n_distance self) (distance_min self) (distance_max self) =
                 Inr (get3 (float4 (s' ! (length s + 2))) m i j)) \<and>
              (\<not> (0 < get3 b m i j \<and> i \<noteq> j) \<longrightarrow>
                 get3 (float4 (s' ! (length s + 2))) m i j =
                 replicate (nat (count_value (n_distance self))) (Fin 0))"
    using batch_to_feed_dict_entries [OF assms(1-4), of pf] unfolding fd_def by blast
  have look: "fd atom_number_placeholder = Some (length s + 1)"
      "fd distance_matrix_placeholder = Some (length s + 2)"
      "fd distance_matrix_mask_placeholder = Some batch"
    by (simp_all add: fd_def)
  have zi: "int2 (s' ! (length s + 1)) ! m ! i = recover_atom_number pf (get3 b m i i)"
    using diag assms(5,6) by blast
  have zj: "int2 (s' ! (length s + 1)) ! m ! j = recover_atom_number pf (get3 b m j j)"
    using diag assms(5,7) by blast
  have p: "get3 (float3 (s' ! batch)) m i j = (if 0 < get3 b m i j \<and> i \<noteq> j then 1 else 0) \<and>
              (0 < get3 b m i j \<and> i \<noteq> j \<longrightarrow>
                 gauss_expand
                   (of_int (int64 (recover_atom_number pf (get3 b m i i) *
                                   recover_atom_number pf (get3 b m j j))) / get3 b m i j)
                   (n_distance self) (distance_min self) (distance_max self) =
                 Inr (get3 (float4 (s' ! (length s + 2))) m i j))"
    using pair assms(5,6,7) by blast
  have one: "get3 (float3 (s' ! batch)) m i j = 1"
    using p assms(8,9) by simp
  have vec: "gauss_expand
             (of_int (int64 (int2 (s' ! (length s + 1)) ! m ! i *
                             int2 (s' ! (length s + 1)) ! m ! j))
                / get3 b m i j)
             (n_distance self) (distance_min self) (distance_max self) =
           Inr (get3 (float4 (s' ! (length s + 2))) m i j)"
    unfolding zi zj using p assms(8,9) by blast
  show ?thesis
    using run look one vec by blast
qed

theorem interacting_pair_expanded_witness:
  "\<exists>fd s' an dm mk.
     batch_to_feed_dict exact_x86
       \<lparr>max_n_atoms = 2, n_distance = PythonInt 1, distance_min = Python 0,
         distance_max = Python 1\<rparr> 0
       [Float3 [[[1 / 2, 2], [2, 1 / 2]]]] = Inr (fd, s') \<and>
     fd atom_number_placeholder = Some an \<and>
     fd distance_matrix_placeholder = Some dm \<and>
     fd distance_matrix_mask_placeholder = Some mk \<and>
     get3 (float3 (s' ! mk)) 0 0 1 = 1 \<and>
     gauss_expand (of_int (int64 (int2 (s' ! an) ! 0 ! 0 * int2 (s' ! an) ! 0 ! 1)) / 2)
       (PythonInt 1) (Python 0) (Python 1) =
     Inr (get3 (float4 (s' ! dm)) 0 0 1)"
  using interacting_pair_expanded [of 0 "[Float3 [[[1 / 2, 2], [2, 1 / 2]]]]"
      "[[[1 / 2, 2], [2, 1 / 2]]]" 2
      "\<lparr>max_n_atoms = 2, n_distance = PythonInt 1, distance_min = Python 0,
         distance_max = Python 1\<rparr>" 0 0 1 exact_x86]
    example_square
  by (auto simp: get3_def)

text \<open>
  C3 as stated fails on a negative value, which is nonzero: the guard of the loop is
  \<^verbatim>\<open>element > 0\<close>, and for the off-diagonal value \<open>-1\<close> the mask is 0 and the vector is
  zero.
\<close>

theorem negative_pair_counterexample:
  "batch_to_feed_dict exact_x86 \<lparr>max_n_atoms = 2, n_distance = PythonInt 1, distance_min = Python 0,
         distance_max = Python 1\<rparr>
     0 [Float3 [[[0, - 1], [- 1, 0]]]] =
   Inr ([atom_number_placeholder \<mapsto> 2, atom_mask_placeholder \<mapsto> 1,
         distance_matrix_placeholder \<mapsto> 3, distance_matrix_mask_placeholder \<mapsto> 0],
        [Float3 [[[0, 0], [0, 0]]], Float2 [[0, 0]], Int2 [[0, 0]],
         Float4 [[[[Fin 0], [Fin 0]], [[Fin 0], [Fin 0]]]]])"
  by (simp add: encoder_defs)

text \<open>
  C4. For every molecule \<open>m\<close> and pair \<open>(i, j)\<close> on the diagonal or with an input value
  \<open>\<le> 0\<close>, the call returns (it raises nothing), the expanded vector at \<open>[m, i, j]\<close>
  is all zero and the distance mask there is 0.
\<close>

theorem no_interaction_zeroed:
  assumes "batch < length s" and "s ! batch = Float3 b" and "square_batch N b"
    and "1 \<le> count_value (n_distance self)" and "m < length b" and "i < N" and "j < N"
    and "i = j \<or> get3 b m i j \<le> 0"
  shows "\<exists>fd s' dm mk. batch_to_feed_dict pf self batch s = Inr (fd, s') \<and>
           fd distance_matrix_placeholder = Some dm \<and>
           fd distance_matrix_mask_placeholder = Some mk \<and>
           get3 (float4 (s' ! dm)) m i j = replicate (nat (count_value (n_distance self))) (Fin 0) \<and>
           get3 (float3 (s' ! mk)) m i j = 0"
proof -
  define fd where "fd = [atom_number_placeholder \<mapsto> length s + 1,
                      atom_mask_placeholder \<mapsto> length s,
                      distance_matrix_placeholder \<mapsto> length s + 2,
                      distance_matrix_mask_placeholder \<mapsto> batch]"
  obtain s' where run: "batch_to_feed_dict pf self batch s = Inr (fd, s')"
    and pair: "\<forall>m i j. m < length b \<and> i < N \<and> j < N \<longrightarrow>
              get3 (float3 (s' ! batch)) m i j = (if 0 < get3 b m i j \<and> i \<noteq> j then 1 else 0) \<and>
              (0 < get3 b m i j \<and> i \<noteq> j \<longrightarrow>
                 gauss_expand
                   (of_int (int64 (recover_atom_number pf (get3 b m i i) *
                                   recover_atom_number pf (get3 b m j j))) / get3 b m i j)
                   (n_distance self) (distance_min self) (distance_max self) =
                 Inr (get3 (float4 (s' ! (length s + 2))) m i j)) \<and>
              (\<not> (0 < get3 b m i j \<and> i \<noteq> j) \<longrightarrow>
                 get3 (float4 (s' ! (length s + 2))) m i j =
                 replicate (nat (count_value (n_distance self))) (Fin 0))"
    using batch_to_feed_dict_entries [OF assms(1-4), of pf] unfolding fd_def by blast
  have look: "fd distance_matrix_placeholder = Some (length s + 2)"
      "fd distance_matrix_mask_placeholder = Some batch"
    by (simp_all add: fd_def)
  have p: "get3 (float3 (s' ! batch)) m i j = (if 0 < get3 b m i j \<and> i \<noteq> j then 1 else 0) \<and>
              (\<not> (0 < get3 b m i j \<and> i \<noteq> j) \<longrightarrow>
                 get3 (float4 (s' ! (length s + 2))) m i j =
                 replicate (nat (count_value (n_distance self))) (Fin 0))"
    using pair assms(5,6,7) by blast
  have no: "\<not> (0 < get3 b m i j \<and> i \<noteq> j)"
    using assms(8) by auto
  have zero: "get3 (float3 (s' ! batch)) m i j = 0"
      "get3 (float4 (s' ! (length s + 2))) m i j = replicate (nat (count_value (n_distance self))) (Fin 0)"
    using p no by auto
  show ?thesis
    using run look zero by blast
qed

theorem no_interaction_zeroed_witness:
  "\<exists>fd s' dm mk.
     batch_to_feed_dict exact_x86
       \<lparr>max_n_atoms = 2, n_distance = PythonInt 1, distance_min = Python 0,
         distance_max = Python 1\<rparr> 0
       [Float3 [[[1 / 2, 2], [2, 1 / 2]]]] = Inr (fd, s') \<and>
     fd distance_matrix_placeholder = Some dm \<and>
     fd distance_matrix_mask_placeholder = Some mk \<and>
     get3 (float4 (s' ! dm)) 0 1 1 = [Fin 0] \<and>
     get3 (float3 (s' ! mk)) 0 1 1 = 0"
  using no_interaction_zeroed [of 0 "[Float3 [[[1 / 2, 2], [2, 1 / 2]]]]"
      "[[[1 / 2, 2], [2, 1 / 2]]]" 2
      "\<lparr>max_n_atoms = 2, n_distance = PythonInt 1, distance_min = Python 0,
         distance_max = Python 1\<rparr>" 0 1 1 exact_x86]
    example_square
  by (auto simp: get3_def)

text \<open>
  C5, as the code has it. A diagonal entry that is \<open>0.5 * Z ^ 2.4\<close> up to a relative
  error \<open>\<delta>\<close>, for an integer \<open>0 \<le> Z < 2\<^sup>6\<^sup>3\<close>, is returned as the atomic number \<open>Z\<close>
  when \<^verbatim>\<open>np.power\<close> is right up to a relative error \<open>\<epsilon>\<close> and \<open>Z\<close> is small enough for
  the rounding to absorb both: \<open>Z * (\<delta> + \<epsilon> + \<delta> * \<epsilon>) < 1 / 2\<close>.
\<close>

theorem atom_number_roundtrip:
  fixes Z :: int and \<delta> \<epsilon> :: real
  assumes "batch < length s" and "s ! batch = Float3 b" and "square_batch N b"
    and "1 \<le> count_value (n_distance self)" and "m < length b" and "i < N"
    and "0 \<le> Z" and "Z < 2 ^ 63" and "0 \<le> \<delta>" and "0 \<le> \<epsilon>"
    and "\<bar>get3 b m i i - 0.5 * (of_int Z) powr 2.4\<bar> \<le> \<delta> * (0.5 * (of_int Z) powr 2.4)"
    and "\<bar>np_pow pf (2 * get3 b m i i) (1 / 2.4) - (2 * get3 b m i i) powr (1 / 2.4)\<bar>
           \<le> \<epsilon> * (2 * get3 b m i i) powr (1 / 2.4)"
    and "of_int Z * (\<delta> + \<epsilon> + \<delta> * \<epsilon>) < 1 / 2"
  shows "\<exists>fd s' an. batch_to_feed_dict pf self batch s = Inr (fd, s') \<and>
           fd atom_number_placeholder = Some an \<and> int2 (s' ! an) ! m ! i = Z"
proof -
  define fd where "fd = [atom_number_placeholder \<mapsto> length s + 1,
                      atom_mask_placeholder \<mapsto> length s,
                      distance_matrix_placeholder \<mapsto> length s + 2,
                      distance_matrix_mask_placeholder \<mapsto> batch]"
  obtain s' where run: "batch_to_feed_dict pf self batch s = Inr (fd, s')"
    and diag: "\<forall>m i. m < length b \<and> i < N \<longrightarrow>
              float2 (s' ! length s) ! m ! i = np_sign (get3 b m i i) \<and>
              int2 (s' ! (length s + 1)) ! m ! i = recover_atom_number pf (get3 b m i i)"
    using batch_to_feed_dict_entries [OF assms(1-4), of pf] unfolding fd_def by blast
  have look: "fd atom_number_placeholder = Some (length s + 1)"
      "fd atom_mask_placeholder = Some (length s)"
    by (simp_all add: fd_def)
  have d: "float2 (s' ! length s) ! m ! i = np_sign (get3 b m i i)"
      "int2 (s' ! (length s + 1)) ! m ! i = recover_atom_number pf (get3 b m i i)"
    using diag assms(5,6) by blast+
  have "recover_atom_number pf (get3 b m i i) = Z"
    using assms(7-13) by (rule recover_atom_number_accurate)
  then have "int2 (s' ! (length s + 1)) ! m ! i = Z"
    using d(2) by simp
  then show ?thesis
    using run look by blast
qed

theorem atom_number_roundtrip_witness:
  "\<exists>fd s' an.
     batch_to_feed_dict coarse_x86
       \<lparr>max_n_atoms = 2, n_distance = PythonInt 1, distance_min = Python 0,
         distance_max = Python 1\<rparr> 0
       [Float3 [[[1 / 2, 2], [2, 1 / 2]]]] = Inr (fd, s') \<and>
     fd atom_number_placeholder = Some an \<and> int2 (s' ! an) ! 0 ! 0 = 1"
  using atom_number_roundtrip [where batch = 0 and s = "[Float3 [[[1 / 2, 2], [2, 1 / 2]]]]"
      and b = "[[[1 / 2, 2], [2, 1 / 2]]]" and N = 2 and m = 0 and i = 0 and Z = 1
      and \<delta> = 0 and \<epsilon> = "1 / 1000" and pf = coarse_x86 and self = "\<lparr>max_n_atoms = 2, n_distance = PythonInt 1, distance_min = Python 0,
         distance_max = Python 1\<rparr>"]
    example_square
  by (simp add: get3_def coarse_x86_def)

lemma recover_atom_number_too_large:
  "recover_atom_number exact_x86 (0.5 * (2 ^ 63) powr 2.4) = - (2 ^ 63)"
proof -
  have pos: "(0 :: real) < 0.5 * (2 ^ 63) powr 2.4"
    by simp
  have "np_pow exact_x86 (2 * (0.5 * (2 ^ 63) powr 2.4)) (1 / 2.4) =
          (((2 :: real) ^ 63) powr 2.4) powr (1 / 2.4)"
    by (simp add: exact_x86_def)
  also have "\<dots> = (2 :: real) ^ 63"
    by (simp add: powr_powr)
  also have "\<dots> = of_int (2 ^ 63)"
    by simp
  finally have "np_round (np_pow exact_x86 (2 * (0.5 * (2 ^ 63) powr 2.4)) (1 / 2.4)) = 2 ^ 63"
    by (simp only: np_round_of_int)
  then have "recover_atom_number exact_x86 (0.5 * (2 ^ 63) powr 2.4) =
               astype_int exact_x86 (Fin (of_int (2 ^ 63)))"
    by (simp only: recover_atom_number_positive [OF pos])
  also have "\<dots> = - (2 ^ 63)"
    by (simp add: Let_def int64_def exact_x86_def)
  finally show ?thesis .
qed

text \<open>
  C5 as stated fails for \<open>Z = 2\<^sup>6\<^sup>3\<close>, even with an exact power: the rounded power does
  not fit a 64-bit integer and the entry returned is the platform's conversion of it,
  \<open>- 2\<^sup>6\<^sup>3\<close> on x86-64.
\<close>

theorem atom_number_counterexample:
  "batch_to_feed_dict exact_x86
     \<lparr>max_n_atoms = 1, n_distance = PythonInt 1, distance_min = Python 0,
         distance_max = Python 1\<rparr>
     0 [Float3 [[[0.5 * (2 ^ 63) powr 2.4]]]] =
   Inr ([atom_number_placeholder \<mapsto> 2, atom_mask_placeholder \<mapsto> 1,
         distance_matrix_placeholder \<mapsto> 3, distance_matrix_mask_placeholder \<mapsto> 0],
        [Float3 [[[0]]], Float2 [[1]], Int2 [[- (2 ^ 63)]], Float4 [[[[Fin 0]]]]])"
  using recover_atom_number_too_large
  by (simp add: batch_to_feed_dict_def alloc_def Let_def np_diag_def np_sign_def np_outer_def
      assign_pair_def store3_def store4_def get3_def set3_def in_range3_def upt_rec
      numeral_2_eq_2 numeral_3_eq_3)

text \<open>
  C10. If every matrix of the batch is symmetric, the expanded distance tensor and the
  distance mask are symmetric in the two atom indices.
\<close>

theorem symmetric_batch_symmetric_tensors:
  assumes "batch < length s" and "s ! batch = Float3 b" and "square_batch N b"
    and "1 \<le> count_value (n_distance self)" and "m < length b" and "i < N" and "j < N"
    and "\<forall>m i j. m < length b \<and> i < N \<and> j < N \<longrightarrow> get3 b m i j = get3 b m j i"
  shows "\<exists>fd s' dm mk. batch_to_feed_dict pf self batch s = Inr (fd, s') \<and>
           fd distance_matrix_placeholder = Some dm \<and>
           fd distance_matrix_mask_placeholder = Some mk \<and>
           get3 (float4 (s' ! dm)) m i j = get3 (float4 (s' ! dm)) m j i \<and>
           get3 (float3 (s' ! mk)) m i j = get3 (float3 (s' ! mk)) m j i"
proof -
  define fd where "fd = [atom_number_placeholder \<mapsto> length s + 1,
                      atom_mask_placeholder \<mapsto> length s,
                      distance_matrix_placeholder \<mapsto> length s + 2,
                      distance_matrix_mask_placeholder \<mapsto> batch]"
  define D where "D = (\<lambda>s'. float4 (s' ! (length s + 2)))"
  define R where "R = (\<lambda>i. recover_atom_number pf (get3 b m i i))"
  obtain s' where run: "batch_to_feed_dict pf self batch s = Inr (fd, s')"
    and pair: "\<forall>m i j. m < length b \<and> i < N \<and> j < N \<longrightarrow>
              get3 (float3 (s' ! batch)) m i j = (if 0 < get3 b m i j \<and> i \<noteq> j then 1 else 0) \<and>
              (0 < get3 b m i j \<and> i \<noteq> j \<longrightarrow>
                 gauss_expand
                   (of_int (int64 (recover_atom_number pf (get3 b m i i) *
                                   recover_atom_number pf (get3 b m j j))) / get3 b m i j)
                   (n_distance self) (distance_min self) (distance_max self) =
                 Inr (get3 (float4 (s' ! (length s + 2))) m i j)) \<and>
              (\<not> (0 < get3 b m i j \<and> i \<noteq> j) \<longrightarrow>
                 get3 (float4 (s' ! (length s + 2))) m i j =
                 replicate (nat (count_value (n_distance self))) (Fin 0))"
    using batch_to_feed_dict_entries [OF assms(1-4), of pf] unfolding fd_def by blast
  have look: "fd distance_matrix_placeholder = Some (length s + 2)"
      "fd distance_matrix_mask_placeholder = Some batch"
    by (simp_all add: fd_def)
  have sym: "get3 b m j i = get3 b m i j"
    using assms(5-8) by simp
  have pij: "get3 (float3 (s' ! batch)) m i j = (if 0 < get3 b m i j \<and> i \<noteq> j then 1 else 0)"
      "0 < get3 b m i j \<and> i \<noteq> j \<longrightarrow>
         gauss_expand (of_int (int64 (R i * R j)) / get3 b m i j)
           (n_distance self) (distance_min self) (distance_max self) = Inr (get3 (D s') m i j)"
      "\<not> (0 < get3 b m i j \<and> i \<noteq> j) \<longrightarrow>
         get3 (D s') m i j = replicate (nat (count_value (n_distance self))) (Fin 0)"
    unfolding D_def R_def using pair assms(5,6,7) by blast+
  have pji: "get3 (float3 (s' ! batch)) m j i = (if 0 < get3 b m j i \<and> j \<noteq> i then 1 else 0)"
      "0 < get3 b m j i \<and> j \<noteq> i \<longrightarrow>
         gauss_expand (of_int (int64 (R j * R i)) / get3 b m j i)
           (n_distance self) (distance_min self) (distance_max self) = Inr (get3 (D s') m j i)"
      "\<not> (0 < get3 b m j i \<and> j \<noteq> i) \<longrightarrow>
         get3 (D s') m j i = replicate (nat (count_value (n_distance self))) (Fin 0)"
    unfolding D_def R_def using pair assms(5,6,7) by blast+
  have mk: "get3 (float3 (s' ! batch)) m i j = get3 (float3 (s' ! batch)) m j i"
    unfolding pij(1) pji(1) sym by auto
  have dm: "get3 (D s') m i j = get3 (D s') m j i"
  proof (cases "0 < get3 b m i j \<and> i \<noteq> j")
    case True
    then have "Inr (get3 (D s') m i j) =
               gauss_expand (of_int (int64 (R i * R j)) / get3 b m i j)
                 (n_distance self) (distance_min self) (distance_max self)"
      using pij(2) by simp
    also have "\<dots> = gauss_expand (of_int (int64 (R j * R i)) / get3 b m j i)
                 (n_distance self) (distance_min self) (distance_max self)"
      by (simp add: sym mult.commute)
    also have "\<dots> = Inr (get3 (D s') m j i)"
      using True pji(2) sym by auto
    finally show ?thesis by simp
  next
    case False
    then show ?thesis using pij(3) pji(3) sym by auto
  qed
  show ?thesis
    using run look mk dm unfolding D_def by blast
qed

theorem symmetric_batch_symmetric_tensors_witness:
  "\<exists>fd s' dm mk.
     batch_to_feed_dict exact_x86
       \<lparr>max_n_atoms = 2, n_distance = PythonInt 1, distance_min = Python 0,
         distance_max = Python 1\<rparr> 0
       [Float3 [[[1 / 2, 2], [2, 1 / 2]]]] = Inr (fd, s') \<and>
     fd distance_matrix_placeholder = Some dm \<and>
     fd distance_matrix_mask_placeholder = Some mk \<and>
     get3 (float4 (s' ! dm)) 0 0 1 = get3 (float4 (s' ! dm)) 0 1 0 \<and>
     get3 (float3 (s' ! mk)) 0 0 1 = get3 (float3 (s' ! mk)) 0 1 0"
proof -
  have sym: "\<forall>m i j. m < length [[[1 / 2, 2], [2, 1 / 2 :: real]]] \<and> i < 2 \<and> j < 2 \<longrightarrow>
               get3 [[[1 / 2, 2], [2, 1 / 2 :: real]]] m i j =
               get3 [[[1 / 2, 2], [2, 1 / 2]]] m j i"
    by (auto simp: get3_def less_Suc_eq numeral_2_eq_2)
  show ?thesis
    using symmetric_batch_symmetric_tensors [of 0 "[Float3 [[[1 / 2, 2], [2, 1 / 2]]]]"
      "[[[1 / 2, 2], [2, 1 / 2]]]" 2
      "\<lparr>max_n_atoms = 2, n_distance = PythonInt 1, distance_min = Python 0,
         distance_max = Python 1\<rparr>" 0 0 1 exact_x86]
      example_square sym
    by simp
qed

end
